theory Spec2Isabelle
  imports Complex_Main
begin

section \<open>The per-input pipeline of solve-field\<close>

text \<open>
  A shallow embedding of \<^verbatim>\<open>main\<close> in \<^verbatim>\<open>blind/solve-field.c\<close>, from the point where
  option parsing has finished (line 283) to the end of the batch loop (line 711).
  Every external program and every library routine whose source is not part of
  \<^verbatim>\<open>solve-field.c\<close> is a field of the record \<open>env\<close>; the theorems hold for every
  such environment.

  What the model leaves out: the text of log and error messages; the allocation and
  release of memory, but for the string \<^verbatim>\<open>allaxy->solvedinfn\<close>, which every trip through
  the loop shares and frees (lines 308 and 692); how an input name is read (from the argument list or, with --files-on-stdin, from a
  line of standard input: the loop below runs over the list of names either way). A
  collaborator is a function of its arguments and of the file system, and it does not
  write to the strings or to the structure it is handed.
\<close>

subsection \<open>String lists\<close>

text \<open>
  The \<^verbatim>\<open>sl\<close> of \<^verbatim>\<open>bl.h\<close> is a growable list of C strings; it is a HOL list here.
  \<^verbatim>\<open>sl_pop\<close> removes the last element, \<^verbatim>\<open>sl_remove_from\<close> keeps the first \<open>n\<close>
  elements, \<^verbatim>\<open>sl_get\<close> reads by index. A read at an index that is not below the size
  is outside the list; \<open>sl_get\<close> returns \<open>None\<close> there.
\<close>

type_synonym sl = "string list"

definition sl_size :: "sl \<Rightarrow> nat" where
  "sl_size xs = length xs"

definition sl_append :: "sl \<Rightarrow> string \<Rightarrow> sl" where
  "sl_append xs x = xs @ [x]"

definition sl_remove_from :: "sl \<Rightarrow> nat \<Rightarrow> sl" where
  "sl_remove_from xs n = take n xs"

definition sl_remove_all :: "sl \<Rightarrow> sl" where
  "sl_remove_all xs = []"

definition sl_pop :: "sl \<Rightarrow> sl" where
  "sl_pop xs = butlast xs"

definition sl_get :: "sl \<Rightarrow> nat \<Rightarrow> string option" where
  "sl_get xs i = (if i < length xs then Some (xs ! i) else None)"

fun sl_implode :: "sl \<Rightarrow> string \<Rightarrow> string" where
  "sl_implode [] sep = []"
| "sl_implode [x] sep = x"
| "sl_implode (x # y # ys) sep = x @ sep @ sl_implode (y # ys) sep"

subsection \<open>The file system\<close>

text \<open>
  The program sees the file system through \<^verbatim>\<open>file_exists\<close> and \<^verbatim>\<open>unlink\<close>. The model
  keeps the set of paths that exist and the set of paths that \<^verbatim>\<open>unlink\<close> refuses to
  remove (a permission error, say). \<^verbatim>\<open>unlink\<close> returns 0 and removes the path, or
  returns -1 and leaves everything as it was. A null pointer names no file.
\<close>

record fsys =
  present :: "string set"
  undeletable :: "string set"

definition file_exists :: "fsys \<Rightarrow> string \<Rightarrow> bool" where
  "file_exists d p = (p \<in> present d)"

definition file_exists_ptr :: "fsys \<Rightarrow> string option \<Rightarrow> bool" where
  "file_exists_ptr d q = (case q of None \<Rightarrow> False | Some p \<Rightarrow> file_exists d p)"

definition unlink :: "fsys \<Rightarrow> string \<Rightarrow> int \<times> fsys" where
  "unlink d p =
     (if p \<in> present d \<and> p \<notin> undeletable d
      then (0, d\<lparr>present := present d - {p}\<rparr>)
      else (- 1, d))"

subsection \<open>Case-insensitive prefix comparison\<close>

text \<open>\<^verbatim>\<open>tolower\<close> in the C locale: the 26 capital letters map to their small letters,
  every other character to itself.\<close>

definition tolower :: "char \<Rightarrow> char" where
  "tolower c =
     (case map_of (zip ''ABCDEFGHIJKLMNOPQRSTUVWXYZ'' ''abcdefghijklmnopqrstuvwxyz'') c of
        Some l \<Rightarrow> l
      | None \<Rightarrow> c)"

text \<open>\<^verbatim>\<open>strncasecmp(a, b, n) == 0\<close>: the first \<open>n\<close> characters (or all of them, when the
  string is shorter) agree up to case.\<close>

definition strncasecmp_eq :: "string \<Rightarrow> string \<Rightarrow> nat \<Rightarrow> bool" where
  "strncasecmp_eq a b n = (map tolower (take n a) = map tolower (take n b))"

subsection \<open>Suffix trimming (lines 347-357)\<close>

text \<open>
  \<^verbatim>\<open>for (j=3; j<=5; j++) if (base[len - j] == '.') { ...; break; }\<close>:
  the first offset of the list at which the name has a dot.
\<close>

fun probe :: "string \<Rightarrow> nat list \<Rightarrow> nat option" where
  "probe base [] = None"
| "probe base (j # js) =
     (if base ! (length base - j) = CHR ''.'' then Some j else probe base js)"

text \<open>
  Writing the terminator at \<open>len - j\<close> leaves the first \<open>len - j\<close> characters as the base;
  the suffix pointer \<open>base + len - j + 1\<close> is the rest of the old string after the dot.
\<close>

definition trim_suffix :: "string \<Rightarrow> string \<times> string option" where
  "trim_suffix base =
     (let len = length base
      in if len > 4
         then (case probe base [3, 4, 5] of
                 None \<Rightarrow> (base, None)
               | Some j \<Rightarrow> (take (len - j) base, Some (drop (len - j + 1) base)))
         else (base, None))"

subsection \<open>Running a command (lines 110-129)\<close>

text \<open>What \<^verbatim>\<open>system\<close> returns: -1, or a wait status that says the shell was killed by a
  signal, or one that carries an exit status.\<close>

datatype wstatus = SystemFailed | Signaled nat | Exited nat

definition SIGTERM :: nat where
  "SIGTERM = 15"

text \<open>The structure handed to \<^verbatim>\<open>augment_xylist\<close>; only the fields that \<^verbatim>\<open>main\<close> reads or
  writes. The five output names are always assigned by \<^verbatim>\<open>main\<close> before they are read.\<close>

record axy_t =
  outfn :: string
  matchfn :: string
  rdlsfn :: string
  solvedfn :: string
  wcsfn :: string
  solvedinfn :: "string option"
  xylsfn :: "string option"
  imagefn :: "string option"
  pnmfn :: "string option"
  force_ppm :: bool

text \<open>The first record of a match file: \<^verbatim>\<open>mo->dimquads\<close> and the array \<^verbatim>\<open>mo->quadpix\<close>.\<close>

record matchobj =
  dimquads :: int
  quadpix :: "nat \<Rightarrow> real"

datatype match_read = OpenFailed | ReadFailed | Match matchobj

text \<open>
  The collaborators of \<^verbatim>\<open>main\<close>. Those that touch the file system take it and return
  it changed as they please.
\<close>

record env =
  shell_escape :: "string \<Rightarrow> string"
  find_executable :: "string \<Rightarrow> string option"
  basename :: "string \<Rightarrow> string"
  fmt_baseout :: "string \<Rightarrow> int \<Rightarrow> string \<Rightarrow> string"
  fmt_i :: "int \<Rightarrow> string"
  fmt_g :: "real \<Rightarrow> string"
  system :: "string \<Rightarrow> fsys \<Rightarrow> wstatus \<times> fsys"
  run_command_get_outputs :: "string \<Rightarrow> fsys \<Rightarrow> int \<times> sl \<times> fsys"
  xylist_is_file_xylist :: "string \<Rightarrow> string option \<Rightarrow> string option \<Rightarrow> fsys \<Rightarrow> bool"
  create_temp_file :: "string \<Rightarrow> string \<Rightarrow> fsys \<Rightarrow> string \<times> fsys"
  augment_xylist :: "axy_t \<Rightarrow> fsys \<Rightarrow> int \<times> fsys"
  wcs_rd2xy :: "string \<Rightarrow> string \<Rightarrow> string \<Rightarrow> fsys \<Rightarrow> int \<times> fsys"
  sip_read_header_file :: "string \<Rightarrow> fsys \<Rightarrow> bool"
  matchfile_read_match :: "string \<Rightarrow> fsys \<Rightarrow> match_read"

text \<open>
  \<^verbatim>\<open>run_command\<close> is always called with the address of the flag \<^verbatim>\<open>ctrlc\<close>. It returns the
  code and the flag: the flag is set when the command died of \<^verbatim>\<open>SIGTERM\<close> and is left
  as it was otherwise.
\<close>

definition run_command :: "env \<Rightarrow> string \<Rightarrow> bool \<Rightarrow> fsys \<Rightarrow> int \<times> bool \<times> fsys" where
  "run_command E cmd flag d =
     (case system E cmd d of
        (SystemFailed, d') \<Rightarrow> (- 1, flag, d')
      | (Signaled sg, d') \<Rightarrow> (- 1, (if sg = SIGTERM then True else flag), d')
      | (Exited n, d') \<Rightarrow> (int n, flag, d'))"

definition append_escape :: "env \<Rightarrow> sl \<Rightarrow> string \<Rightarrow> sl" where
  "append_escape E xs fn = sl_append xs (shell_escape E fn)"

text \<open>\<^verbatim>\<open>append_executable\<close> leaves the process with \<^verbatim>\<open>exit(-1)\<close> when the program is not
  found: \<open>None\<close>.\<close>

definition append_executable :: "env \<Rightarrow> sl \<Rightarrow> string \<Rightarrow> sl option" where
  "append_executable E xs fn =
     (case find_executable E fn of
        None \<Rightarrow> None
      | Some exec \<Rightarrow> Some (sl_append xs (shell_escape E exec)))"

subsection \<open>Options, calls and the state of the loop\<close>

text \<open>
  The options that \<^verbatim>\<open>main\<close> has read before the loop starts. \<open>allaxy\<close> is the structure
  filled by the option parser of augment-xylist, copied into \<^verbatim>\<open>axy\<close> at the top of
  every iteration (line 308). \<^verbatim>\<open>xcol\<close> and \<^verbatim>\<open>ycol\<close> are null in this version of
  \<^verbatim>\<open>main\<close>; they are kept as options. The locals \<^verbatim>\<open>solvedin\<close> and \<^verbatim>\<open>solvedindir\<close> are
  null and never assigned, so lines 378-390 never run and are left out.
\<close>

record config =
  outdir :: "string option"
  baseout :: "string option"
  overwrite :: bool
  cont :: bool
  skip_solved :: bool
  usecurl :: bool
  verbose :: bool
  xcol :: "string option"
  ycol :: "string option"
  allaxy :: axy_t

text \<open>One entry per call of a collaborator, named after the place in \<^verbatim>\<open>main\<close> that
  makes it, with what it was given.\<close>

datatype call =
    Fetch string
  | Classify string
  | TempFile string
  | Augment axy_t
  | PlotObjs string
  | Backend sl
  | Rd2xy string string string
  | ReadWcs string
  | ReadMatch string
  | PlotIndx string
  | PlotNgc string

text \<open>
  How a piece of the loop body ends: it falls through to the next statement, it jumps
  to \<^verbatim>\<open>nextfile\<close>, it leaves the process with \<^verbatim>\<open>exit(-1)\<close>, it reads a string list
  outside its bounds or a string that has been freed, or it frees a string a second
  time. C leaves the last two undefined; the run is over there.
\<close>

datatype outcome = Proceed | NextFile | ExitFailure | BadRead | BadFree

definition fatal :: "outcome \<Rightarrow> bool" where
  "fatal oc = (oc = ExitFailure \<or> oc = BadRead \<or> oc = BadFree)"

text \<open>
  The variables of \<^verbatim>\<open>main\<close> that the loop body reads and writes. \<open>disk\<close>, \<open>backendargs\<close>
  and \<open>makeplots\<close> live across iterations; the others are declared inside the loop.
  \<open>calls\<close> records the calls of the current iteration. \<open>solvedin_freed\<close> says that the
  string \<^verbatim>\<open>allaxy->solvedinfn\<close> points to has been handed to \<^verbatim>\<open>free\<close>; it lives across
  iterations too.
\<close>

record state =
  disk :: fsys
  backendargs :: sl
  makeplots :: bool
  solvedin_freed :: bool
  calls :: "call list"
  infile :: string
  ctrlc :: bool
  cmdline :: sl
  outfiles :: sl
  tempfiles :: sl
  axy :: axy_t
  ppmfn :: "string option"
  objsfn :: string
  redgreenfn :: string
  ngcfn :: string
  indxylsfn :: string
  downloadfn :: string

definition emit :: "call \<Rightarrow> state \<Rightarrow> state" where
  "emit c s = s\<lparr>calls := calls s @ [c]\<rparr>"

text \<open>Sequencing: the next piece runs only when the one before fell through.\<close>

definition and_then :: "outcome \<times> state \<Rightarrow> (state \<Rightarrow> outcome \<times> state) \<Rightarrow> outcome \<times> state" where
  "and_then r f = (case r of (Proceed, s) \<Rightarrow> f s | (oc, s) \<Rightarrow> (oc, s))"

subsection \<open>Names of the output files (lines 330-398)\<close>

definition derive_base :: "env \<Rightarrow> config \<Rightarrow> int \<Rightarrow> string \<Rightarrow> string" where
  "derive_base E cfg inputnum inp =
     (let cpy = (case baseout cfg of
                   Some b \<Rightarrow> fmt_baseout E b inputnum inp
                 | None \<Rightarrow> inp)
      in case outdir cfg of
           Some dir \<Rightarrow> dir @ ''/'' @ basename E cpy
         | None \<Rightarrow> basename E cpy)"

text \<open>
  The top of the loop body up to line 398. \<open>junk\<close> is what the uninitialised local
  \<^verbatim>\<open>bool ctrlc\<close> (line 302) happens to hold; \<open>nbeargs\<close> is the size of the backend
  argument list taken before the loop (line 284).
\<close>

definition start_job :: "env \<Rightarrow> config \<Rightarrow> nat \<Rightarrow> int \<Rightarrow> string \<Rightarrow> bool \<Rightarrow> state \<Rightarrow> state" where
  "start_job E cfg nbeargs inputnum inp junk s =
     (case trim_suffix (derive_base E cfg inputnum inp) of (base, suffix) \<Rightarrow>
        let a = (allaxy cfg)\<lparr>outfn := base @ ''.axy'',
                             matchfn := base @ ''.match'',
                             rdlsfn := base @ ''.rdls'',
                             solvedfn := base @ ''.solved'',
                             wcsfn := base @ ''.wcs''\<rparr>;
            objs = base @ ''-objs.png'';
            redgreen = base @ ''-indx.png'';
            ngc = base @ ''-ngc.png'';
            indxyls = base @ ''-indx.xyls'';
            download = (case suffix of
                          Some sfx \<Rightarrow> base @ ''-downloaded.'' @ sfx
                        | None \<Rightarrow> base @ ''-downloaded'');
            outs = [outfn a, matchfn a, rdlsfn a, solvedfn a, wcsfn a,
                    objs, redgreen, ngc, indxyls, download]
        in s\<lparr>backendargs := sl_remove_from (backendargs s) nbeargs,
             calls := [],
             infile := inp,
             ctrlc := junk,
             cmdline := [],
             outfiles := (if solvedinfn a = Some (solvedfn a) then sl_pop outs else outs),
             tempfiles := [],
             axy := a,
             ppmfn := None,
             objsfn := objs,
             redgreenfn := redgreen,
             ngcfn := ngc,
             indxylsfn := indxyls,
             downloadfn := download\<rparr>)"

text \<open>
  Line 391 is the first place of a trip that reads the string \<^verbatim>\<open>axy->solvedinfn\<close> points
  to. The pointer is the one of \<^verbatim>\<open>allaxy\<close> (line 308 copies the structure, not the
  string), so the string is gone once an earlier trip has freed it.
\<close>

definition dangling :: "state \<Rightarrow> bool" where
  "dangling s = (solvedinfn (axy s) \<noteq> None \<and> solvedin_freed s)"

subsection \<open>Skipping solved inputs (lines 400-411)\<close>

text \<open>
  The loop over \<^verbatim>\<open>tocheck\<close>: a null entry is passed over; for the others the file that
  is tested is \<^verbatim>\<open>axy->solvedinfn\<close>, whichever entry the loop is at. \<open>True\<close> is the jump to
  \<^verbatim>\<open>nextfile\<close>.
\<close>

fun solved_loop :: "fsys \<Rightarrow> string option \<Rightarrow> string option list \<Rightarrow> bool" where
  "solved_loop d sif [] = False"
| "solved_loop d sif (None # ts) = solved_loop d sif ts"
| "solved_loop d sif (Some t # ts) =
     (if file_exists_ptr d sif then True else solved_loop d sif ts)"

definition check_solved :: "config \<Rightarrow> state \<Rightarrow> outcome \<times> state" where
  "check_solved cfg s =
     (if skip_solved cfg
         \<and> solved_loop (disk s) (solvedinfn (axy s)) [solvedinfn (axy s), Some (solvedfn (axy s))]
      then (NextFile, s)
      else (Proceed, s))"

subsection \<open>Existing output files (lines 413-431)\<close>

fun scan_outfiles :: "config \<Rightarrow> sl \<Rightarrow> fsys \<Rightarrow> outcome \<times> fsys" where
  "scan_outfiles cfg [] d = (Proceed, d)"
| "scan_outfiles cfg (fn # fns) d =
     (if \<not> file_exists d fn then scan_outfiles cfg fns d
      else if cont cfg then scan_outfiles cfg fns d
      else if overwrite cfg then
        (case unlink d fn of
           (rc, d') \<Rightarrow> if rc \<noteq> 0 then (ExitFailure, d') else scan_outfiles cfg fns d')
      else (NextFile, d))"

definition check_outfiles :: "config \<Rightarrow> state \<Rightarrow> outcome \<times> state" where
  "check_outfiles cfg s =
     (case scan_outfiles cfg (outfiles s) (disk s) of (oc, d') \<Rightarrow> (oc, s\<lparr>disk := d'\<rparr>))"

subsection \<open>Downloading a URL (lines 433-457)\<close>

definition is_url :: "string \<Rightarrow> bool" where
  "is_url inp = (strncasecmp_eq inp ''http://'' 7 \<or> strncasecmp_eq inp ''ftp://'' 6)"

text \<open>The tokens of the fetch command (lines 438-443).\<close>

definition fetch_tokens :: "env \<Rightarrow> config \<Rightarrow> state \<Rightarrow> sl" where
  "fetch_tokens E cfg s =
     (let c1 = sl_append (cmdline s) (if usecurl cfg then ''curl'' else ''wget'');
          c2 = (if \<not> verbose cfg
                then sl_append c1 (if usecurl cfg then ''--silent'' else ''--quiet'')
                else c1);
          c3 = sl_append c2 (if usecurl cfg then ''--output'' else ''-O'');
          c4 = append_escape E c3 (downloadfn s)
      in append_escape E c4 (infile s))"

text \<open>
  The command is imploded, the token list is emptied (line 446), the command runs. When
  it fails, the diagnostic reads element 0 of the token list (line 450) before
  \<^verbatim>\<open>exit(-1)\<close>.
\<close>

definition download :: "env \<Rightarrow> config \<Rightarrow> state \<Rightarrow> outcome \<times> state" where
  "download E cfg s =
     (if \<not> file_exists (disk s) (infile s) \<and> is_url (infile s) then
        let toks = fetch_tokens E cfg s;
            cmd = sl_implode toks '' ''
        in case run_command E cmd (ctrlc s) (disk s) of
             (rc, flag, d') \<Rightarrow>
               let s' = emit (Fetch cmd)
                          (s\<lparr>disk := d', ctrlc := flag, cmdline := sl_remove_all toks\<rparr>)
               in if rc \<noteq> 0
                  then (case sl_get (cmdline s') 0 of
                          None \<Rightarrow> (BadRead, s')
                        | Some tok \<Rightarrow> (ExitFailure, s'))
                  else (Proceed, s'\<lparr>infile := downloadfn s\<rparr>)
      else (Proceed, s))"

subsection \<open>Classification and the temporary image (lines 459-480)\<close>

definition tempdir :: string where
  "tempdir = ''/tmp''"

definition classify :: "env \<Rightarrow> config \<Rightarrow> state \<Rightarrow> outcome \<times> state" where
  "classify E cfg s =
     (let isxyls = xylist_is_file_xylist E (infile s) (xcol cfg) (ycol cfg) (disk s);
          s1 = emit (Classify (infile s)) s;
          s2 = (if isxyls
                then s1\<lparr>axy := (axy s1)\<lparr>xylsfn := Some (infile s)\<rparr>\<rparr>
                else s1\<lparr>axy := (axy s1)\<lparr>imagefn := Some (infile s)\<rparr>\<rparr>)
      in if imagefn (axy s2) \<noteq> None
         then (case create_temp_file E ''ppm'' tempdir (disk s2) of
                 (ppm, d') \<Rightarrow>
                   (Proceed,
                    emit (TempFile ppm)
                      (s2\<lparr>disk := d',
                          tempfiles := sl_append (tempfiles s2) ppm,
                          axy := (axy s2)\<lparr>pnmfn := Some ppm, force_ppm := True\<rparr>,
                          ppmfn := Some ppm\<rparr>)))
         else (Proceed, s2))"

subsection \<open>augment-xylist (lines 482-485)\<close>

definition augment :: "env \<Rightarrow> state \<Rightarrow> outcome \<times> state" where
  "augment E s =
     (case augment_xylist E (axy s) (disk s) of
        (rc, d') \<Rightarrow>
          let s' = emit (Augment (axy s)) (s\<lparr>disk := d'\<rparr>)
          in if rc \<noteq> 0 then (ExitFailure, s') else (Proceed, s'))"

subsection \<open>The plot of the extracted sources (lines 487-541)\<close>

text \<open>\<^verbatim>\<open>ppmfn\<close> is read only under \<^verbatim>\<open>if (axy->imagefn)\<close>, and lines 474-480 have set it
  whenever \<^verbatim>\<open>axy->imagefn\<close> is set.\<close>

definition escape_ppm :: "env \<Rightarrow> state \<Rightarrow> sl \<Rightarrow> sl" where
  "escape_ppm E s xs = (case ppmfn s of Some p \<Rightarrow> append_escape E xs p | None \<Rightarrow> xs)"

definition image_args :: "env \<Rightarrow> state \<Rightarrow> sl \<Rightarrow> sl" where
  "image_args E s xs =
     (if imagefn (axy s) \<noteq> None then escape_ppm E s (sl_append xs ''-I'') else xs)"

definition col_args :: "env \<Rightarrow> config \<Rightarrow> sl \<Rightarrow> sl" where
  "col_args E cfg xs =
     (let x1 = (case xcol cfg of
                  Some x \<Rightarrow> append_escape E (sl_append xs ''-X'') x
                | None \<Rightarrow> xs)
      in case ycol cfg of
           Some y \<Rightarrow> append_escape E (sl_append x1 ''-Y'') y
         | None \<Rightarrow> x1)"

definition objs_cmdline :: "env \<Rightarrow> config \<Rightarrow> state \<Rightarrow> sl option" where
  "objs_cmdline E cfg s =
     (case append_executable E (cmdline s) ''plotxy'' of
        None \<Rightarrow> None
      | Some c1 \<Rightarrow>
          let c2 = append_escape E (sl_append c1 ''-i'') (outfn (axy s));
              c3 = image_args E s c2;
              c4 = col_args E cfg c3;
              c5 = sl_append (sl_append (sl_append c4 ''-P'') ''-C red -w 2 -N 50 -x 1 -y 1'') ''|''
          in case append_executable E c5 ''plotxy'' of
               None \<Rightarrow> None
             | Some c6 \<Rightarrow>
                 let c7 = append_escape E (sl_append c6 ''-i'') (outfn (axy s));
                     c8 = col_args E cfg c7;
                     c9 = sl_append c8 ''-I - -w 2 -r 3 -C red -n 50 -N 200 -x 1 -y 1''
                 in Some (append_escape E (sl_append c9 ''>'') (objsfn s)))"

definition plot_objs :: "env \<Rightarrow> config \<Rightarrow> state \<Rightarrow> outcome \<times> state" where
  "plot_objs E cfg s =
     (if makeplots s then
        (case objs_cmdline E cfg s of
           None \<Rightarrow> (ExitFailure, s)
         | Some toks \<Rightarrow>
             (case run_command E (sl_implode toks '' '') (ctrlc s) (disk s) of
                (rc, flag, d') \<Rightarrow>
                  let s' = emit (PlotObjs (sl_implode toks '' ''))
                             (s\<lparr>disk := d', ctrlc := flag, cmdline := sl_remove_all toks\<rparr>)
                  in if rc \<noteq> 0
                     then (if ctrlc s' then (ExitFailure, s')
                           else (Proceed, s'\<lparr>makeplots := False\<rparr>))
                     else (Proceed, s')))
      else (Proceed, s))"

subsection \<open>The backend (lines 543-554)\<close>

definition solve :: "env \<Rightarrow> state \<Rightarrow> outcome \<times> state" where
  "solve E s =
     (let be = append_escape E (backendargs s) (outfn (axy s))
      in case run_command_get_outputs E (sl_implode be '' '') (disk s) of
           (rc, lines, d') \<Rightarrow>
             let s' = emit (Backend be) (s\<lparr>disk := d', backendargs := be\<rparr>)
             in if rc \<noteq> 0 then (ExitFailure, s') else (Proceed, s'))"

subsection \<open>After the backend (lines 556-688)\<close>

definition project_index :: "env \<Rightarrow> state \<Rightarrow> outcome \<times> state" where
  "project_index E s =
     (case wcs_rd2xy E (wcsfn (axy s)) (rdlsfn (axy s)) (indxylsfn s) (disk s) of
        (rc, d') \<Rightarrow>
          let s' = emit (Rd2xy (wcsfn (axy s)) (rdlsfn (axy s)) (indxylsfn s)) (s\<lparr>disk := d'\<rparr>)
          in if rc \<noteq> 0 then (ExitFailure, s') else (Proceed, s'))"

text \<open>Reading the header; the centre and the size of the field are only logged.\<close>

definition read_wcs :: "env \<Rightarrow> state \<Rightarrow> outcome \<times> state" where
  "read_wcs E s =
     (let s' = emit (ReadWcs (wcsfn (axy s))) s
      in if \<not> sip_read_header_file E (wcsfn (axy s)) (disk s)
         then (ExitFailure, s')
         else (Proceed, s'))"

definition indx_cmdline_head :: "env \<Rightarrow> config \<Rightarrow> state \<Rightarrow> sl option" where
  "indx_cmdline_head E cfg s =
     (case append_executable E (cmdline s) ''plotxy'' of
        None \<Rightarrow> None
      | Some c1 \<Rightarrow>
          let c2 = append_escape E (sl_append c1 ''-i'') (outfn (axy s));
              c3 = image_args E s c2;
              c4 = col_args E cfg c3;
              c5 = sl_append (sl_append (sl_append c4 ''-P'') ''-C red -w 2 -r 6 -N 200 -x 1 -y 1'') ''|''
          in case append_executable E c5 ''plotxy'' of
               None \<Rightarrow> None
             | Some c6 \<Rightarrow>
                 Some (sl_append (append_escape E (sl_append c6 ''-i'') (indxylsfn s))
                         ''-I - -w 2 -r 4 -C green -x 1 -y 1''))"

definition indx_cmdline_tail :: "env \<Rightarrow> state \<Rightarrow> matchobj \<Rightarrow> sl \<Rightarrow> sl option" where
  "indx_cmdline_tail E s mo xs =
     (case append_executable E (sl_append xs '' -P |'') ''plotquad'' of
        None \<Rightarrow> None
      | Some c1 \<Rightarrow>
          let c2 = sl_append (sl_append (sl_append c1 ''-I -'') ''-C green'') ''-w 2'';
              c3 = sl_append c2 (''-d '' @ fmt_i E (dimquads mo));
              c4 = foldl (\<lambda>c i. sl_append c ('' '' @ fmt_g E (quadpix mo i))) c3
                     [0 ..< nat (2 * dimquads mo)]
          in Some (append_escape E (sl_append c4 ''>'') (redgreenfn s)))"

text \<open>\<^verbatim>\<open>matchfile_open\<close> and \<^verbatim>\<open>matchfile_read_match\<close> are one call of the environment
  here; each of their failures is an \<^verbatim>\<open>exit(-1)\<close>.\<close>

definition plot_indx :: "env \<Rightarrow> config \<Rightarrow> state \<Rightarrow> outcome \<times> state" where
  "plot_indx E cfg s =
     (if makeplots s then
        (case indx_cmdline_head E cfg s of
           None \<Rightarrow> (ExitFailure, s)
         | Some hd_toks \<Rightarrow>
             let s1 = emit (ReadMatch (matchfn (axy s))) (s\<lparr>cmdline := hd_toks\<rparr>)
             in case matchfile_read_match E (matchfn (axy s)) (disk s) of
                  OpenFailed \<Rightarrow> (ExitFailure, s1)
                | ReadFailed \<Rightarrow> (ExitFailure, s1)
                | Match mo \<Rightarrow>
                    (case indx_cmdline_tail E s mo hd_toks of
                       None \<Rightarrow> (ExitFailure, s1)
                     | Some toks \<Rightarrow>
                         (case run_command E (sl_implode toks '' '') (ctrlc s) (disk s) of
                            (rc, flag, d') \<Rightarrow>
                              let s2 = emit (PlotIndx (sl_implode toks '' ''))
                                         (s1\<lparr>disk := d', ctrlc := flag,
                                             cmdline := sl_remove_all toks\<rparr>)
                              in if rc \<noteq> 0 then (ExitFailure, s2) else (Proceed, s2))))
      else (Proceed, s))"

definition plot_ngc :: "env \<Rightarrow> config \<Rightarrow> state \<Rightarrow> outcome \<times> state" where
  "plot_ngc E cfg s =
     (if imagefn (axy s) \<noteq> None \<and> makeplots s then
        (case append_executable E (cmdline s) ''plot-constellations'' of
           None \<Rightarrow> (ExitFailure, s)
         | Some c1 \<Rightarrow>
             let c2 = (if verbose cfg then sl_append c1 ''-v'' else c1);
                 c3 = append_escape E (sl_append c2 ''-w'') (wcsfn (axy s));
                 c4 = escape_ppm E s (sl_append c3 ''-i'');
                 c5 = sl_append (sl_append (sl_append c4 ''-N'') ''-C'') ''-o'';
                 c6 = append_escape E c5 (ngcfn s)
             in case run_command_get_outputs E (sl_implode c6 '' '') (disk s) of
                  (rc, lines, d') \<Rightarrow>
                    let s' = emit (PlotNgc (sl_implode c6 '' ''))
                               (s\<lparr>disk := d', cmdline := sl_remove_all c6\<rparr>)
                    in if rc \<noteq> 0 then (ExitFailure, s') else (Proceed, s'))
      else (Proceed, s))"

definition post_solve :: "env \<Rightarrow> config \<Rightarrow> state \<Rightarrow> outcome \<times> state" where
  "post_solve E cfg s =
     (if \<not> file_exists (disk s) (solvedfn (axy s)) then (Proceed, s)
      else and_then (and_then (and_then (project_index E s) (read_wcs E)) (plot_indx E cfg))
             (plot_ngc E cfg))"

subsection \<open>Cleaning up (lines 691-700)\<close>

text \<open>
  The first statement at \<^verbatim>\<open>nextfile\<close> is \<^verbatim>\<open>free(axy->solvedinfn)\<close> (line 692). Freeing a
  null pointer does nothing; freeing the string marks it freed; freeing it again is
  undefined.
\<close>

definition free_solvedin :: "state \<Rightarrow> outcome \<times> state" where
  "free_solvedin s =
     (case solvedinfn (axy s) of
        None \<Rightarrow> (Proceed, s)
      | Some p \<Rightarrow>
          if solvedin_freed s then (BadFree, s)
          else (Proceed, s\<lparr>solvedin_freed := True\<rparr>))"

text \<open>A temporary file that \<^verbatim>\<open>unlink\<close> does not remove is reported and the loop goes on.\<close>

fun unlink_all :: "sl \<Rightarrow> fsys \<Rightarrow> fsys" where
  "unlink_all [] d = d"
| "unlink_all (fn # fns) d = unlink_all fns (snd (unlink d fn))"

definition unlink_temps :: "state \<Rightarrow> outcome \<times> state" where
  "unlink_temps s =
     (Proceed, s\<lparr>disk := unlink_all (tempfiles s) (disk s),
                  cmdline := [], outfiles := [], tempfiles := []\<rparr>)"

definition cleanup :: "state \<Rightarrow> outcome \<times> state" where
  "cleanup s = and_then (free_solvedin s) unlink_temps"

subsection \<open>The loop (lines 286-711)\<close>

text \<open>The statements of the loop body between line 400 and the label \<^verbatim>\<open>nextfile\<close>:
  the two checks, then everything before the backend, the backend, and what follows it.\<close>

definition resolve :: "config \<Rightarrow> state \<Rightarrow> outcome \<times> state" where
  "resolve cfg s = and_then (check_solved cfg s) (check_outfiles cfg)"

definition before_solve :: "env \<Rightarrow> config \<Rightarrow> state \<Rightarrow> outcome \<times> state" where
  "before_solve E cfg s =
     and_then (and_then (and_then (and_then
       (resolve cfg s)
       (download E cfg))
       (classify E cfg))
       (augment E))
       (plot_objs E cfg)"

definition upto_solve :: "env \<Rightarrow> config \<Rightarrow> state \<Rightarrow> outcome \<times> state" where
  "upto_solve E cfg s = and_then (before_solve E cfg s) (solve E)"

definition body :: "env \<Rightarrow> config \<Rightarrow> state \<Rightarrow> outcome \<times> state" where
  "body E cfg s = and_then (upto_solve E cfg s) (post_solve E cfg)"

text \<open>
  One trip through the loop. A trip that finds the solved-in string freed stops at the
  read of line 391. \<^verbatim>\<open>exit(-1)\<close> ends the process where it stands; every other way out
  of the body arrives at \<^verbatim>\<open>nextfile\<close>, and when the block there is through the loop goes
  on: \<open>Proceed\<close>.
\<close>

definition iteration ::
    "env \<Rightarrow> config \<Rightarrow> nat \<Rightarrow> int \<Rightarrow> string \<Rightarrow> bool \<Rightarrow> state \<Rightarrow> outcome \<times> state" where
  "iteration E cfg nbeargs inputnum inp junk s =
     (let s0 = start_job E cfg nbeargs inputnum inp junk s
      in if dangling s0 then (BadRead, s0)
         else (case body E cfg s0 of
                 (oc, s') \<Rightarrow> if fatal oc then (oc, s') else cleanup s'))"

text \<open>
  The loop over the input names, \<open>k\<close> being \<^verbatim>\<open>inputnum\<close> before the increment of line 330.
  \<open>junk k\<close> is the content of the uninitialised \<^verbatim>\<open>ctrlc\<close> in the trip for input \<open>k\<close>. The
  result carries the calls of each trip, in order.
\<close>

fun run_files ::
    "env \<Rightarrow> config \<Rightarrow> nat \<Rightarrow> (int \<Rightarrow> bool) \<Rightarrow> int \<Rightarrow> string list \<Rightarrow> state
       \<Rightarrow> outcome \<times> state \<times> call list list" where
  "run_files E cfg nbeargs junk k [] s = (Proceed, s, [])"
| "run_files E cfg nbeargs junk k (inp # rest) s =
     (case iteration E cfg nbeargs (k + 1) inp (junk (k + 1)) s of
        (oc, s') \<Rightarrow>
          if fatal oc then (oc, s', [calls s'])
          else (case run_files E cfg nbeargs junk (k + 1) rest s' of
                  (oc', s'', trs) \<Rightarrow> (oc', s'', calls s' # trs)))"

text \<open>How the process ends: \<^verbatim>\<open>return 0\<close> after the loop (line 711), \<^verbatim>\<open>exit(-1)\<close>, or
  undefined behaviour.\<close>

datatype ending = Returns int | Exits int | Undefined

definition ending_of :: "outcome \<Rightarrow> ending" where
  "ending_of oc =
     (case oc of
        ExitFailure \<Rightarrow> Exits (- 1)
      | BadRead \<Rightarrow> Undefined
      | BadFree \<Rightarrow> Undefined
      | _ \<Rightarrow> Returns 0)"

definition main_loop ::
    "env \<Rightarrow> config \<Rightarrow> (int \<Rightarrow> bool) \<Rightarrow> string list \<Rightarrow> state \<Rightarrow> ending \<times> state \<times> call list list" where
  "main_loop E cfg junk inputs s =
     (let nbeargs = sl_size (backendargs s)
      in case run_files E cfg nbeargs junk 0 inputs s of
           (oc, s', trs) \<Rightarrow> (ending_of oc, s', trs))"

subsection \<open>Which calls a piece of the body adds\<close>

text \<open>The part of the body a call belongs to: the download, the steps between the
  download and the backend, the backend, the steps after it.\<close>

datatype part = Download | Preparing | Solving | Reporting

definition part_of :: "call \<Rightarrow> part" where
  "part_of c =
     (case c of
        Fetch cmd \<Rightarrow> Download
      | Classify f \<Rightarrow> Preparing
      | TempFile f \<Rightarrow> Preparing
      | Augment a \<Rightarrow> Preparing
      | PlotObjs cmd \<Rightarrow> Preparing
      | Backend be \<Rightarrow> Solving
      | _ \<Rightarrow> Reporting)"

text \<open>\<open>f\<close> only appends calls, and every call it appends satisfies \<open>K\<close>.\<close>

definition adds :: "(call \<Rightarrow> bool) \<Rightarrow> (state \<Rightarrow> outcome \<times> state) \<Rightarrow> bool" where
  "adds K f = (\<forall>s. \<exists>ev. calls (snd (f s)) = calls s @ ev \<and> (\<forall>c\<in>set ev. K c))"

definition extends :: "(call \<Rightarrow> bool) \<Rightarrow> outcome \<times> state \<Rightarrow> outcome \<times> state \<Rightarrow> bool" where
  "extends K r r' = (\<exists>ev. calls (snd r') = calls (snd r) @ ev \<and> (\<forall>c\<in>set ev. K c))"

text \<open>\<open>f\<close> leaves the value of \<open>g\<close> as it was.\<close>

definition keeps :: "(state \<Rightarrow> 'a) \<Rightarrow> (state \<Rightarrow> outcome \<times> state) \<Rightarrow> bool" where
  "keeps g f = (\<forall>s. g (snd (f s)) = g s)"

definition names :: "state \<Rightarrow> sl \<times> string \<times> string" where
  "names s = (backendargs s, outfn (axy s), solvedfn (axy s))"

text \<open>The solved-in pointer and whether its string has been freed.\<close>

definition mem :: "state \<Rightarrow> string option \<times> bool" where
  "mem s = (solvedinfn (axy s), solvedin_freed s)"

text \<open>The name that line 363 gives to the augmented xylist of an input.\<close>

definition canonical_list :: "env \<Rightarrow> config \<Rightarrow> int \<Rightarrow> string \<Rightarrow> string" where
  "canonical_list E cfg inputnum inp = fst (trim_suffix (derive_base E cfg inputnum inp)) @ ''.axy''"

subsection \<open>An example environment\<close>

text \<open>
  Every program is found and succeeds without touching the file system, every input is
  an image, and the temporary file is \<^verbatim>\<open>/tmp/tmp.ppm\<close>. The scenarios below change one
  collaborator at a time.
\<close>

definition basename_std :: "string \<Rightarrow> string" where
  "basename_std p = rev (takeWhile (\<lambda>c. c \<noteq> CHR ''/'') (rev p))"

definition env0 :: env where
  "env0 = \<lparr>shell_escape = (\<lambda>x. x),
           find_executable = (\<lambda>n. Some n),
           basename = basename_std,
           fmt_baseout = (\<lambda>b n i. b),
           fmt_i = (\<lambda>n. ''0''),
           fmt_g = (\<lambda>x. ''0''),
           system = (\<lambda>cmd d. (Exited 0, d)),
           run_command_get_outputs = (\<lambda>cmd d. (0, [], d)),
           xylist_is_file_xylist = (\<lambda>f x y d. False),
           create_temp_file =
             (\<lambda>sfx dir d. (dir @ ''/tmp.'' @ sfx,
                            d\<lparr>present := insert (dir @ ''/tmp.'' @ sfx) (present d)\<rparr>)),
           augment_xylist = (\<lambda>a d. (0, d)),
           wcs_rd2xy = (\<lambda>w r x d. (0, d)),
           sip_read_header_file = (\<lambda>w d. True),
           matchfile_read_match = (\<lambda>m d. Match \<lparr>dimquads = 0, quadpix = (\<lambda>i. 0)\<rparr>)\<rparr>"

definition axy0 :: axy_t where
  "axy0 = \<lparr>outfn = [], matchfn = [], rdlsfn = [], solvedfn = [], wcsfn = [],
           solvedinfn = None, xylsfn = None, imagefn = None, pnmfn = None,
           force_ppm = False\<rparr>"

definition cfg0 :: config where
  "cfg0 = \<lparr>outdir = None, baseout = None, overwrite = False, cont = False,
           skip_solved = False, usecurl = True, verbose = False,
           xcol = None, ycol = None, allaxy = axy0\<rparr>"

definition disk_with :: "string set \<Rightarrow> fsys" where
  "disk_with ps = \<lparr>present = ps, undeletable = {}\<rparr>"

definition st0 :: "fsys \<Rightarrow> state" where
  "st0 d = \<lparr>disk = d, backendargs = [''backend''], makeplots = True,
            solvedin_freed = False, calls = [],
            infile = [], ctrlc = False, cmdline = [], outfiles = [], tempfiles = [],
            axy = axy0, ppmfn = None, objsfn = [], redgreenfn = [], ngcfn = [],
            indxylsfn = [], downloadfn = []\<rparr>"

text \<open>The preparer fails.\<close>

definition env_augment_fails :: env where
  "env_augment_fails = env0\<lparr>augment_xylist := (\<lambda>a d. (1, d))\<rparr>"

text \<open>The backend solves the field \<open>sky\<close>: it leaves the solved file behind.\<close>

definition env_solves :: env where
  "env_solves = env0\<lparr>run_command_get_outputs :=
     (\<lambda>cmd d. (0, [], d\<lparr>present := insert ''sky.solved'' (present d)\<rparr>))\<rparr>"

text \<open>Every shell command exits with the given status, none is killed by a signal.\<close>

definition env_command_exits :: "nat \<Rightarrow> env" where
  "env_command_exits n = env0\<lparr>system := (\<lambda>cmd d. (Exited n, d))\<rparr>"

text \<open>--skip-solved with --continue; --overwrite with a solved-in file named as the
  solved file of the input \<open>foo.png\<close>.\<close>

definition cfg_skip_continue :: config where
  "cfg_skip_continue = cfg0\<lparr>skip_solved := True, cont := True\<rparr>"

definition cfg_solved_in :: config where
  "cfg_solved_in = cfg0\<lparr>overwrite := True, allaxy := axy0\<lparr>solvedinfn := Some ''foo.solved''\<rparr>\<rparr>"

text \<open>A solved-in file \<open>old.solved\<close>, no other option.\<close>

definition cfg_solved_elsewhere :: config where
  "cfg_solved_elsewhere = cfg0\<lparr>allaxy := axy0\<lparr>solvedinfn := Some ''old.solved''\<rparr>\<rparr>"

text \<open>The uninitialised flag happens to be clear in every trip.\<close>

definition no_junk :: "int \<Rightarrow> bool" where
  "no_junk k = False"

lemmas sl_defs = sl_size_def sl_append_def sl_remove_from_def sl_remove_all_def sl_pop_def
  sl_get_def append_escape_def append_executable_def

lemmas fs_defs = file_exists_def file_exists_ptr_def unlink_def

lemmas stage_defs = start_job_def derive_base_def trim_suffix_def check_solved_def
  check_outfiles_def is_url_def strncasecmp_eq_def tolower_def fetch_tokens_def download_def run_command_def
  classify_def tempdir_def augment_def escape_ppm_def image_args_def col_args_def
  objs_cmdline_def plot_objs_def solve_def project_index_def read_wcs_def
  indx_cmdline_head_def indx_cmdline_tail_def plot_indx_def plot_ngc_def post_solve_def
  dangling_def free_solvedin_def unlink_temps_def cleanup_def resolve_def before_solve_def upto_solve_def body_def iteration_def
  and_then_def emit_def fatal_def SIGTERM_def

lemmas run_defs = stage_defs sl_defs fs_defs Let_def main_loop_def ending_of_def

lemmas example_defs0 = env0_def axy0_def cfg0_def disk_with_def st0_def basename_std_def
  env_augment_fails_def env_command_exits_def no_junk_def cfg_skip_continue_def
  cfg_solved_in_def env_solves_def cfg_solved_elsewhere_def

lemmas ex_defs = run_defs example_defs0

section \<open>Properties\<close>

subsection \<open>Suffix trimming\<close>

text \<open>
  C7. The suffix is looked for only when the name has more than 4 characters, and only
  at the offsets 3, 4 and 5 from its end, the nearest first: \<open>foo.png\<close> gives the base
  \<open>foo\<close> and the suffix \<open>png\<close>, \<open>foo.jpeg\<close> gives \<open>foo\<close> and \<open>jpeg\<close>, \<open>foo\<close> stays as it
  is with no suffix. A name of at most 4 characters, or one with no dot at those three
  offsets, is unchanged and has no suffix; otherwise the name is cut at the first of
  the three offsets that holds a dot.
\<close>

theorem trim_suffix_window:
  "trim_suffix ''foo.png'' = (''foo'', Some ''png'')
   \<and> trim_suffix ''foo.jpeg'' = (''foo'', Some ''jpeg'')
   \<and> trim_suffix ''foo'' = (''foo'', None)
   \<and> (length b \<le> 4 \<or> (\<forall>j\<in>{3, 4, 5}. b ! (length b - j) \<noteq> CHR ''.'')
        \<longrightarrow> trim_suffix b = (b, None))
   \<and> (4 < length c \<and> j \<in> {3, 4, 5} \<and> c ! (length c - j) = CHR ''.''
          \<and> (\<forall>i\<in>{3..<j}. c ! (length c - i) \<noteq> CHR ''.'')
        \<longrightarrow> trim_suffix c = (take (length c - j) c, Some (drop (length c - j + 1) c)))"
proof (intro conjI impI)
  show "trim_suffix ''foo.png'' = (''foo'', Some ''png'')"
    by (simp add: trim_suffix_def)
  show "trim_suffix ''foo.jpeg'' = (''foo'', Some ''jpeg'')"
    by (simp add: trim_suffix_def)
  show "trim_suffix ''foo'' = (''foo'', None)"
    by (simp add: trim_suffix_def)
next
  assume "length b \<le> 4 \<or> (\<forall>j\<in>{3, 4, 5}. b ! (length b - j) \<noteq> CHR ''.'')"
  then show "trim_suffix b = (b, None)"
    by (auto simp: trim_suffix_def Let_def)
next
  assume "4 < length c \<and> j \<in> {3, 4, 5} \<and> c ! (length c - j) = CHR ''.''
          \<and> (\<forall>i\<in>{3..<j}. c ! (length c - i) \<noteq> CHR ''.'')"
  then show "trim_suffix c = (take (length c - j) c, Some (drop (length c - j + 1) c))"
    by (auto simp: trim_suffix_def Let_def)
qed

theorem trim_suffix_window_witness:
  "trim_suffix ''a.b/c'' = (''a'', Some ''b/c'') \<and> trim_suffix ''x.fi'' = (''x.fi'', None)"
  using trim_suffix_window [of "''x.fi''" "''a.b/c''" 4] by simp

subsection \<open>The scan of the output files and the removal of temporary files\<close>

lemma scan_default:
  "\<not> overwrite cfg \<Longrightarrow> \<not> cont cfg \<Longrightarrow> \<exists>p\<in>set fns. file_exists d p \<Longrightarrow>
   scan_outfiles cfg fns d = (NextFile, d)"
  by (induction fns) auto

lemma scan_cont: "cont cfg \<Longrightarrow> scan_outfiles cfg fns d = (Proceed, d)"
  by (induction fns) auto

lemma scan_overwrite_step:
  "overwrite cfg \<Longrightarrow> \<not> cont cfg \<Longrightarrow> fn \<in> present d \<Longrightarrow> fn \<notin> undeletable d \<Longrightarrow>
   scan_outfiles cfg (fn # fns) d = scan_outfiles cfg fns (d\<lparr>present := present d - {fn}\<rparr>)"
  by (simp add: file_exists_def unlink_def)

lemma scan_overwrite_fst:
  "overwrite cfg \<Longrightarrow> \<not> cont cfg \<Longrightarrow>
   fst (scan_outfiles cfg fns d) =
     (if \<exists>p\<in>set fns. p \<in> present d \<and> p \<in> undeletable d then ExitFailure else Proceed)"
proof (induction fns arbitrary: d)
  case Nil
  then show ?case by simp
next
  case (Cons fn fns)
  note IH = Cons.IH [OF Cons.prems]
  consider (absent) "fn \<notin> present d"
    | (stuck) "fn \<in> present d" "fn \<in> undeletable d"
    | (gone) "fn \<in> present d" "fn \<notin> undeletable d"
    by blast
  then show ?case
  proof cases
    case absent
    then show ?thesis using IH [of d] Cons.prems by (auto simp: file_exists_def)
  next
    case stuck
    then show ?thesis using Cons.prems by (auto simp: file_exists_def unlink_def)
  next
    case gone
    then show ?thesis
      using IH [of "d\<lparr>present := present d - {fn}\<rparr>"] Cons.prems
      by (auto simp: scan_overwrite_step simp del: scan_outfiles.simps)
  qed
qed

lemma scan_overwrite_snd:
  "overwrite cfg \<Longrightarrow> \<not> cont cfg \<Longrightarrow>
   \<not> (\<exists>p\<in>set fns. p \<in> present d \<and> p \<in> undeletable d) \<Longrightarrow>
   snd (scan_outfiles cfg fns d) = d\<lparr>present := present d - set fns\<rparr>"
proof (induction fns arbitrary: d)
  case Nil
  then show ?case by simp
next
  case (Cons fn fns)
  show ?case
  proof (cases "fn \<in> present d")
    case False
    then have "present d - set (fn # fns) = present d - set fns" by auto
    moreover have "snd (scan_outfiles cfg fns d) = d\<lparr>present := present d - set fns\<rparr>"
      using Cons by auto
    ultimately show ?thesis using False by (simp add: file_exists_def)
  next
    case True
    then have nu: "fn \<notin> undeletable d" using Cons.prems by auto
    let ?d = "d\<lparr>present := present d - {fn}\<rparr>"
    have "snd (scan_outfiles cfg fns ?d) = ?d\<lparr>present := present ?d - set fns\<rparr>"
      using Cons by auto
    moreover have "present d - {fn} - set fns = present d - set (fn # fns)" by auto
    ultimately show ?thesis
      using True nu Cons.prems(1,2) by (simp add: scan_overwrite_step del: scan_outfiles.simps)
  qed
qed

lemma unlink_all_present:
  "present (unlink_all ts d) = present d - (set ts - undeletable d)
   \<and> undeletable (unlink_all ts d) = undeletable d"
  by (induction ts arbitrary: d) (auto simp: unlink_def)


subsection \<open>Sequencing and the start of a trip\<close>

lemma and_then_stop [simp]: "oc \<noteq> Proceed \<Longrightarrow> and_then (oc, s) f = (oc, s)"
  by (cases oc) (simp_all add: and_then_def)

lemma and_then_go [simp]: "and_then (Proceed, s) f = f s"
  by (simp add: and_then_def)

lemma body_stops_at_resolve:
  "resolve cfg s = (oc, s') \<Longrightarrow> oc \<noteq> Proceed \<Longrightarrow> body E cfg s = (oc, s')"
  by (simp add: body_def upto_solve_def before_solve_def)

lemma start_job_fields:
  "disk (start_job E cfg n k inp junk s) = disk s"
  "calls (start_job E cfg n k inp junk s) = []"
  "tempfiles (start_job E cfg n k inp junk s) = []"
  "cmdline (start_job E cfg n k inp junk s) = []"
  "makeplots (start_job E cfg n k inp junk s) = makeplots s"
  "backendargs (start_job E cfg n k inp junk s) = take n (backendargs s)"
  "infile (start_job E cfg n k inp junk s) = inp"
  "ctrlc (start_job E cfg n k inp junk s) = junk"
  "solvedin_freed (start_job E cfg n k inp junk s) = solvedin_freed s"
  "solvedinfn (axy (start_job E cfg n k inp junk s)) = solvedinfn (allaxy cfg)"
  by (simp_all add: start_job_def Let_def sl_remove_from_def split: prod.splits)

lemma check_solved_state: "snd (check_solved cfg s) = s"
  by (simp add: check_solved_def)

lemma check_solved_cases:
  "check_solved cfg s = (NextFile, s) \<or> check_solved cfg s = (Proceed, s)"
  by (simp add: check_solved_def)

lemma check_outfiles_default:
  "\<not> overwrite cfg \<Longrightarrow> \<not> cont cfg \<Longrightarrow> \<exists>p\<in>set (outfiles s). file_exists (disk s) p \<Longrightarrow>
   check_outfiles cfg s = (NextFile, s)"
  by (simp add: check_outfiles_def scan_default)

lemma check_outfiles_cont: "cont cfg \<Longrightarrow> check_outfiles cfg s = (Proceed, s)"
  by (simp add: check_outfiles_def scan_cont)

lemma check_outfiles_overwrite_fails:
  "overwrite cfg \<Longrightarrow> \<not> cont cfg \<Longrightarrow>
   \<exists>p\<in>set (outfiles s). p \<in> present (disk s) \<and> p \<in> undeletable (disk s) \<Longrightarrow>
   fst (check_outfiles cfg s) = ExitFailure"
  using scan_overwrite_fst [of cfg "outfiles s" "disk s"]
  by (cases "scan_outfiles cfg (outfiles s) (disk s)") (simp add: check_outfiles_def)

lemma check_outfiles_overwrite_ok:
  "overwrite cfg \<Longrightarrow> \<not> cont cfg \<Longrightarrow>
   \<not> (\<exists>p\<in>set (outfiles s). p \<in> present (disk s) \<and> p \<in> undeletable (disk s)) \<Longrightarrow>
   check_outfiles cfg s = (Proceed, s\<lparr>disk := (disk s)\<lparr>present := present (disk s) - set (outfiles s)\<rparr>\<rparr>)"
  using scan_overwrite_fst [of cfg "outfiles s" "disk s"]
        scan_overwrite_snd [of cfg "outfiles s" "disk s"]
  by (cases "scan_outfiles cfg (outfiles s) (disk s)") (simp add: check_outfiles_def)

lemma resolve_default:
  "\<not> overwrite cfg \<Longrightarrow> \<not> cont cfg \<Longrightarrow> \<exists>p\<in>set (outfiles s). file_exists (disk s) p \<Longrightarrow>
   resolve cfg s = (NextFile, s)"
  using check_solved_cases [of cfg s] check_outfiles_default [of cfg s]
  by (auto simp: resolve_def)

subsection \<open>The calls of each piece of the body\<close>

lemma adds_mono: "adds K f \<Longrightarrow> (\<And>c. K c \<Longrightarrow> K' c) \<Longrightarrow> adds K' f"
  unfolding adds_def by blast

lemma extends_refl [simp]: "extends K r r"
  by (simp add: extends_def)

lemma extends_trans: "extends K r r' \<Longrightarrow> extends K r' r'' \<Longrightarrow> extends K r r''"
  unfolding extends_def
proof -
  assume "\<exists>ev. calls (snd r') = calls (snd r) @ ev \<and> (\<forall>c\<in>set ev. K c)"
    and "\<exists>ev. calls (snd r'') = calls (snd r') @ ev \<and> (\<forall>c\<in>set ev. K c)"
  then obtain e1 e2 where "calls (snd r') = calls (snd r) @ e1" "\<forall>c\<in>set e1. K c"
    "calls (snd r'') = calls (snd r') @ e2" "\<forall>c\<in>set e2. K c" by blast
  then have "calls (snd r'') = calls (snd r) @ (e1 @ e2) \<and> (\<forall>c\<in>set (e1 @ e2). K c)"
    by auto
  then show "\<exists>ev. calls (snd r'') = calls (snd r) @ ev \<and> (\<forall>c\<in>set ev. K c)" by blast
qed

lemma extends_mono: "extends K r r' \<Longrightarrow> (\<And>c. K c \<Longrightarrow> K' c) \<Longrightarrow> extends K' r r'"
  unfolding extends_def by blast

lemma extends_and_then: "adds K f \<Longrightarrow> extends K r (and_then r f)"
proof -
  assume a: "adds K f"
  obtain oc s where r: "r = (oc, s)" by (cases r)
  show ?thesis
  proof (cases "oc = Proceed")
    case True
    then show ?thesis using a r by (simp add: extends_def adds_def)
  next
    case False
    then show ?thesis using r by simp
  qed
qed

lemma adds_download: "adds (\<lambda>c. part_of c = Download) (download E cfg)"
  unfolding adds_def download_def
  by (auto simp: Let_def emit_def part_of_def split: prod.splits option.splits)

lemma adds_classify: "adds (\<lambda>c. part_of c = Preparing) (classify E cfg)"
  unfolding adds_def classify_def
  by (auto simp: Let_def emit_def part_of_def split: prod.splits)

lemma adds_augment: "adds (\<lambda>c. part_of c = Preparing) (augment E)"
  unfolding adds_def augment_def
  by (auto simp: Let_def emit_def part_of_def split: prod.splits)

lemma adds_plot_objs: "adds (\<lambda>c. part_of c = Preparing) (plot_objs E cfg)"
  unfolding adds_def plot_objs_def
  by (auto simp: Let_def emit_def part_of_def split: prod.splits option.splits)

lemma adds_solve: "adds (\<lambda>c. part_of c = Solving) (solve E)"
  unfolding adds_def solve_def
  by (auto simp: Let_def emit_def part_of_def split: prod.splits)

lemma adds_project_index: "adds (\<lambda>c. part_of c = Reporting) (project_index E)"
  unfolding adds_def project_index_def
  by (auto simp: Let_def emit_def part_of_def split: prod.splits)

lemma adds_read_wcs: "adds (\<lambda>c. part_of c = Reporting) (read_wcs E)"
  unfolding adds_def read_wcs_def
  by (auto simp: Let_def emit_def part_of_def)

lemma adds_plot_indx: "adds (\<lambda>c. part_of c = Reporting) (plot_indx E cfg)"
  unfolding adds_def plot_indx_def
  by (auto simp: Let_def emit_def part_of_def split: prod.splits option.splits match_read.splits)

lemma adds_plot_ngc: "adds (\<lambda>c. part_of c = Reporting) (plot_ngc E cfg)"
  unfolding adds_def plot_ngc_def
  by (auto simp: Let_def emit_def part_of_def split: prod.splits option.splits)

lemma post_solve_entered:
  "file_exists (disk s) (solvedfn (axy s)) \<Longrightarrow>
   post_solve E cfg s =
     and_then (and_then (and_then (project_index E s) (read_wcs E)) (plot_indx E cfg)) (plot_ngc E cfg)"
  by (simp add: post_solve_def)

lemma post_solve_silent:
  "\<not> file_exists (disk s) (solvedfn (axy s)) \<Longrightarrow> post_solve E cfg s = (Proceed, s)"
  by (simp add: post_solve_def)

lemma reporting_extends:
  "extends (\<lambda>c. part_of c = Reporting) r
     (and_then (and_then (and_then r (read_wcs E)) (plot_indx E cfg)) (plot_ngc E cfg))"
  by (blast intro: extends_trans extends_and_then adds_read_wcs adds_plot_indx adds_plot_ngc)

lemma adds_post_solve: "adds (\<lambda>c. part_of c = Reporting) (post_solve E cfg)"
  unfolding adds_def
proof
  fix s
  show "\<exists>ev. calls (snd (post_solve E cfg s)) = calls s @ ev \<and> (\<forall>c\<in>set ev. part_of c = Reporting)"
  proof (cases "file_exists (disk s) (solvedfn (axy s))")
    case False
    then show ?thesis by (simp add: post_solve_silent)
  next
    case True
    have "extends (\<lambda>c. part_of c = Reporting) (Proceed, s) (and_then (Proceed, s) (project_index E))"
      by (rule extends_and_then [OF adds_project_index])
    then have "extends (\<lambda>c. part_of c = Reporting) (Proceed, s) (post_solve E cfg s)"
      using reporting_extends [of "project_index E s" E cfg]
      by (simp add: post_solve_entered [OF True]) (blast intro: extends_trans)
    then show ?thesis by (simp add: extends_def)
  qed
qed

lemma check_outfiles_disk_only: "\<exists>d. snd (check_outfiles cfg s) = s\<lparr>disk := d\<rparr>"
  by (cases "scan_outfiles cfg (outfiles s) (disk s)") (auto simp: check_outfiles_def)

lemma resolve_disk_only: "\<exists>d. snd (resolve cfg s) = s\<lparr>disk := d\<rparr>"
proof -
  have "\<exists>d. s = s\<lparr>disk := d\<rparr>"
    by (rule exI [of _ "disk s"]) simp
  then show ?thesis
    using check_solved_cases [of cfg s] check_outfiles_disk_only [of cfg s]
    by (auto simp: resolve_def)
qed

lemma run_command_zero:
  "fst (run_command E cmd flag d) = 0 \<longleftrightarrow> fst (system E cmd d) = Exited 0"
  by (cases "system E cmd d") (auto simp: run_command_def split: wstatus.splits)

lemma download_calls:
  "calls (snd (download E cfg s)) =
     calls s @ (if \<not> file_exists (disk s) (infile s) \<and> is_url (infile s)
                then [Fetch (sl_implode (fetch_tokens E cfg s) '' '')] else [])"
  by (auto simp: download_def Let_def emit_def split: prod.splits option.splits)

lemma download_fails:
  assumes "\<not> file_exists (disk s) (infile s) \<and> is_url (infile s)"
    and "fst (system E (sl_implode (fetch_tokens E cfg s) '' '') (disk s)) \<noteq> Exited 0"
  shows "fst (download E cfg s) = BadRead"
  using assms run_command_zero [of E "sl_implode (fetch_tokens E cfg s) '' ''" "ctrlc s" "disk s"]
  by (cases "run_command E (sl_implode (fetch_tokens E cfg s) '' '') (ctrlc s) (disk s)")
     (simp add: download_def Let_def emit_def sl_get_def sl_remove_all_def)

lemma download_succeeds:
  assumes "\<not> file_exists (disk s) (infile s) \<and> is_url (infile s)"
    and "fst (system E (sl_implode (fetch_tokens E cfg s) '' '') (disk s)) = Exited 0"
  shows "fst (download E cfg s) = Proceed \<and> infile (snd (download E cfg s)) = downloadfn s"
  using assms run_command_zero [of E "sl_implode (fetch_tokens E cfg s) '' ''" "ctrlc s" "disk s"]
  by (cases "run_command E (sl_implode (fetch_tokens E cfg s) '' '') (ctrlc s) (disk s)")
     (simp add: download_def Let_def emit_def)

lemma classify_first_call:
  "\<exists>t. calls (snd (classify E cfg s)) = calls s @ Classify (infile s) # t"
  by (auto simp: classify_def Let_def emit_def split: prod.splits)

lemma extends_step: "extends K r r' \<Longrightarrow> adds K f \<Longrightarrow> extends K r (and_then r' f)"
  using extends_trans [of K r r' "and_then r' f"] extends_and_then [of K f r'] by simp

text \<open>What follows the download only appends calls, none of them a fetch.\<close>

lemma after_download_extends:
  "extends (\<lambda>c. part_of c \<noteq> Download) r
     (and_then (and_then (and_then (and_then (and_then r (classify E cfg)) (augment E))
        (plot_objs E cfg)) (solve E)) (post_solve E cfg))"
proof -
  let ?K = "\<lambda>c. part_of c \<noteq> Download"
  have a: "adds ?K (classify E cfg)" by (rule adds_mono [OF adds_classify]) simp
  have b: "adds ?K (augment E)" by (rule adds_mono [OF adds_augment]) simp
  have c: "adds ?K (plot_objs E cfg)" by (rule adds_mono [OF adds_plot_objs]) simp
  have d: "adds ?K (solve E)" by (rule adds_mono [OF adds_solve]) simp
  have e: "adds ?K (post_solve E cfg)" by (rule adds_mono [OF adds_post_solve]) simp
  note 1 = extends_and_then [OF a, of r]
  note 2 = extends_step [OF 1 b]
  note 3 = extends_step [OF 2 c]
  note 4 = extends_step [OF 3 d]
  show ?thesis by (rule extends_step [OF 4 e])
qed

lemma body_after_resolve:
  "resolve cfg s = (Proceed, s1) \<Longrightarrow>
   body E cfg s =
     and_then (and_then (and_then (and_then (and_then (download E cfg s1) (classify E cfg))
       (augment E)) (plot_objs E cfg)) (solve E)) (post_solve E cfg)"
  by (simp add: body_def upto_solve_def before_solve_def)

lemma body_stops_at_download:
  "resolve cfg s = (Proceed, s1) \<Longrightarrow> fst (download E cfg s1) \<noteq> Proceed \<Longrightarrow>
   body E cfg s = download E cfg s1"
  by (cases "download E cfg s1") (simp add: body_after_resolve)

lemma tail_extends:
  "extends (\<lambda>c. part_of c \<noteq> Download) r
     (and_then (and_then (and_then (and_then r (augment E)) (plot_objs E cfg)) (solve E))
        (post_solve E cfg))"
proof -
  let ?K = "\<lambda>c. part_of c \<noteq> Download"
  have b: "adds ?K (augment E)" by (rule adds_mono [OF adds_augment]) simp
  have c: "adds ?K (plot_objs E cfg)" by (rule adds_mono [OF adds_plot_objs]) simp
  have d: "adds ?K (solve E)" by (rule adds_mono [OF adds_solve]) simp
  have e: "adds ?K (post_solve E cfg)" by (rule adds_mono [OF adds_post_solve]) simp
  note 2 = extends_and_then [OF b, of r]
  note 3 = extends_step [OF 2 c]
  note 4 = extends_step [OF 3 d]
  show ?thesis by (rule extends_step [OF 4 e])
qed

lemma is_url_prefix:
  "is_url inp \<longleftrightarrow> map tolower (take 7 inp) = ''http://'' \<or> map tolower (take 6 inp) = ''ftp://''"
  by (simp add: is_url_def strncasecmp_eq_def tolower_def)

lemma resolve_proceeds_fields:
  assumes "resolve cfg s = (oc, s1)"
  shows "calls s1 = calls s" "infile s1 = infile s" "downloadfn s1 = downloadfn s"
    "tempfiles s1 = tempfiles s" "backendargs s1 = backendargs s" "axy s1 = axy s"
    "makeplots s1 = makeplots s" "ctrlc s1 = ctrlc s" "cmdline s1 = cmdline s"
proof -
  obtain d where "snd (resolve cfg s) = s\<lparr>disk := d\<rparr>"
    using resolve_disk_only by blast
  then have "s1 = s\<lparr>disk := d\<rparr>" using assms by simp
  then show "calls s1 = calls s" "infile s1 = infile s" "downloadfn s1 = downloadfn s"
    "tempfiles s1 = tempfiles s" "backendargs s1 = backendargs s" "axy s1 = axy s"
    "makeplots s1 = makeplots s" "ctrlc s1 = ctrlc s" "cmdline s1 = cmdline s"
    by simp_all
qed


subsection \<open>What each piece leaves unchanged\<close>

lemma keeps_and_then: "keeps g f \<Longrightarrow> g (snd (and_then r f)) = g (snd r)"
proof -
  assume a: "keeps g f"
  obtain oc s where r: "r = (oc, s)" by (cases r)
  show ?thesis
  proof (cases "oc = Proceed")
    case True
    then show ?thesis using a r by (simp add: keeps_def)
  next
    case False
    then show ?thesis using r by simp
  qed
qed

lemma resolve_names: "names (snd (resolve cfg s)) = names s"
  using resolve_disk_only [of cfg s] by (auto simp: names_def)

lemma keeps_download: "keeps names (download E cfg)"
  unfolding keeps_def download_def
  by (auto simp: Let_def emit_def names_def split: prod.splits option.splits)

lemma keeps_classify: "keeps names (classify E cfg)"
  unfolding keeps_def classify_def
  by (auto simp: Let_def emit_def names_def split: prod.splits)

lemma keeps_augment: "keeps names (augment E)"
  unfolding keeps_def augment_def
  by (auto simp: Let_def emit_def names_def split: prod.splits)

lemma keeps_plot_objs: "keeps names (plot_objs E cfg)"
  unfolding keeps_def plot_objs_def
  by (auto simp: Let_def emit_def names_def split: prod.splits option.splits)

lemma keeps_project_index: "keeps backendargs (project_index E)"
  unfolding keeps_def project_index_def
  by (auto simp: Let_def emit_def split: prod.splits)

lemma keeps_read_wcs: "keeps backendargs (read_wcs E)"
  unfolding keeps_def read_wcs_def
  by (auto simp: Let_def emit_def)

lemma keeps_plot_indx: "keeps backendargs (plot_indx E cfg)"
  unfolding keeps_def plot_indx_def
  by (auto simp: Let_def emit_def split: prod.splits option.splits match_read.splits)

lemma keeps_plot_ngc: "keeps backendargs (plot_ngc E cfg)"
  unfolding keeps_def plot_ngc_def
  by (auto simp: Let_def emit_def split: prod.splits option.splits)

lemma keeps_post_solve: "keeps backendargs (post_solve E cfg)"
  unfolding keeps_def
proof
  fix s
  show "backendargs (snd (post_solve E cfg s)) = backendargs s"
  proof (cases "file_exists (disk s) (solvedfn (axy s))")
    case False
    then show ?thesis by (simp add: post_solve_silent)
  next
    case True
    have "backendargs (snd (project_index E s)) = backendargs s"
      using keeps_project_index by (simp add: keeps_def)
    then show ?thesis
      by (simp add: post_solve_entered [OF True] keeps_and_then [OF keeps_plot_ngc]
          keeps_and_then [OF keeps_plot_indx] keeps_and_then [OF keeps_read_wcs])
  qed
qed

lemma before_solve_names: "names (snd (before_solve E cfg s)) = names s"
  by (simp add: before_solve_def keeps_and_then [OF keeps_plot_objs]
      keeps_and_then [OF keeps_augment] keeps_and_then [OF keeps_classify]
      keeps_and_then [OF keeps_download] resolve_names)

lemma resolve_calls: "calls (snd (resolve cfg s)) = calls s"
  using resolve_disk_only [of cfg s] by auto

lemma before_solve_extends:
  "extends (\<lambda>c. part_of c = Download \<or> part_of c = Preparing) (Proceed, s) (before_solve E cfg s)"
proof -
  let ?K = "\<lambda>c. part_of c = Download \<or> part_of c = Preparing"
  have a: "adds ?K (download E cfg)" by (rule adds_mono [OF adds_download]) simp
  have b: "adds ?K (classify E cfg)" by (rule adds_mono [OF adds_classify]) simp
  have c: "adds ?K (augment E)" by (rule adds_mono [OF adds_augment]) simp
  have d: "adds ?K (plot_objs E cfg)" by (rule adds_mono [OF adds_plot_objs]) simp
  have 0: "extends ?K (Proceed, s) (resolve cfg s)"
    by (simp add: extends_def resolve_calls)
  note 1 = extends_step [OF 0 a]
  note 2 = extends_step [OF 1 b]
  note 3 = extends_step [OF 2 c]
  show ?thesis unfolding before_solve_def by (rule extends_step [OF 3 d])
qed

lemma solve_effect:
  "calls (snd (solve E s)) = calls s @ [Backend (backendargs s @ [shell_escape E (outfn (axy s))])]
   \<and> backendargs (snd (solve E s)) = backendargs s @ [shell_escape E (outfn (axy s))]
   \<and> solvedfn (axy (snd (solve E s))) = solvedfn (axy s)"
  by (auto simp: solve_def Let_def emit_def append_escape_def sl_append_def split: prod.splits)

lemma start_job_outfn:
  "outfn (axy (start_job E cfg n k inp j s)) = canonical_list E cfg k inp"
  by (cases "trim_suffix (derive_base E cfg k inp)")
     (simp add: start_job_def canonical_list_def Let_def)

lemma dangling_start_job:
  "dangling (start_job E cfg n k inp j s) \<longleftrightarrow> solvedinfn (allaxy cfg) \<noteq> None \<and> solvedin_freed s"
  by (simp add: dangling_def start_job_fields)

lemma cleanup_fields:
  "calls (snd (cleanup s)) = calls s" "backendargs (snd (cleanup s)) = backendargs s"
  by (auto simp: cleanup_def free_solvedin_def unlink_temps_def split: option.splits)

lemma cleanup_done:
  "\<not> dangling s \<Longrightarrow>
   fst (cleanup s) = Proceed
   \<and> disk (snd (cleanup s)) = unlink_all (tempfiles s) (disk s)
   \<and> tempfiles (snd (cleanup s)) = []"
  by (auto simp: cleanup_def free_solvedin_def unlink_temps_def dangling_def split: option.splits)

lemma iteration_dangling:
  "dangling (start_job E cfg n k inp j s) \<Longrightarrow>
   iteration E cfg n k inp j s = (BadRead, start_job E cfg n k inp j s)"
  by (simp add: iteration_def)

lemma iteration_fatal_body:
  "\<not> dangling (start_job E cfg n k inp j s) \<Longrightarrow>
   fatal (fst (body E cfg (start_job E cfg n k inp j s))) \<Longrightarrow>
   iteration E cfg n k inp j s = body E cfg (start_job E cfg n k inp j s)"
  by (cases "body E cfg (start_job E cfg n k inp j s)") (simp add: iteration_def)

lemma iteration_nextfile:
  "\<not> dangling (start_job E cfg n k inp j s) \<Longrightarrow>
   \<not> fatal (fst (body E cfg (start_job E cfg n k inp j s))) \<Longrightarrow>
   iteration E cfg n k inp j s = cleanup (snd (body E cfg (start_job E cfg n k inp j s)))"
  by (cases "body E cfg (start_job E cfg n k inp j s)") (simp add: iteration_def)

lemma iteration_fields:
  "calls (snd (iteration E cfg n k inp j s))
     = (if dangling (start_job E cfg n k inp j s) then []
        else calls (snd (body E cfg (start_job E cfg n k inp j s))))"
  "backendargs (snd (iteration E cfg n k inp j s))
     = (if dangling (start_job E cfg n k inp j s) then take n (backendargs s)
        else backendargs (snd (body E cfg (start_job E cfg n k inp j s))))"
  by (cases "body E cfg (start_job E cfg n k inp j s)";
      simp add: iteration_def cleanup_fields start_job_fields)+

lemma upto_solve_backend:
  assumes b0: "backendargs s0 = pre" and c0: "calls s0 = []"
  shows "(\<forall>be. Backend be \<in> set (calls (snd (upto_solve E cfg s0)))
            \<longrightarrow> be = pre @ [shell_escape E (outfn (axy s0))])
       \<and> take (length pre) (backendargs (snd (upto_solve E cfg s0))) = pre"
proof -
  let ?r = "before_solve E cfg s0"
  have nm: "backendargs (snd ?r) = pre" "outfn (axy (snd ?r)) = outfn (axy s0)"
    using before_solve_names [of E cfg s0] b0 by (simp_all add: names_def)
  obtain ev where ev: "calls (snd ?r) = ev" "\<forall>c\<in>set ev. part_of c = Download \<or> part_of c = Preparing"
    using before_solve_extends [of s0 E cfg] c0 by (auto simp: extends_def)
  have nb: "\<And>be. Backend be \<notin> set (calls (snd ?r))"
    using ev by (auto simp: part_of_def)
  obtain oc s4 where r: "?r = (oc, s4)" by (cases ?r)
  show ?thesis
  proof (cases "oc = Proceed")
    case True
    then have "upto_solve E cfg s0 = solve E s4"
      by (simp add: upto_solve_def r)
    then show ?thesis
      using solve_effect [of E s4] nb nm r by auto
  next
    case False
    then have "upto_solve E cfg s0 = ?r"
      by (simp add: upto_solve_def r)
    then show ?thesis using nb nm by simp
  qed
qed

lemma iteration_backend:
  assumes inv: "take (length pre) (backendargs s) = pre"
  shows "(\<forall>be. Backend be \<in> set (calls (snd (iteration E cfg (length pre) k inp j s)))
            \<longrightarrow> be = pre @ [shell_escape E (canonical_list E cfg k inp)])
       \<and> take (length pre) (backendargs (snd (iteration E cfg (length pre) k inp j s))) = pre"
proof -
  let ?s0 = "start_job E cfg (length pre) k inp j s"
  have b0: "backendargs ?s0 = pre" and c0: "calls ?s0 = []"
    using inv by (simp_all add: start_job_fields)
  note u = upto_solve_backend [OF b0 c0, of E cfg]
  have ba: "backendargs (snd (body E cfg ?s0)) = backendargs (snd (upto_solve E cfg ?s0))"
    by (simp add: body_def keeps_and_then [OF keeps_post_solve])
  obtain ev where ev: "calls (snd (body E cfg ?s0)) = calls (snd (upto_solve E cfg ?s0)) @ ev"
    "\<forall>c\<in>set ev. part_of c = Reporting"
    using extends_and_then [OF adds_post_solve, of "upto_solve E cfg ?s0" E cfg]
    by (auto simp: extends_def body_def)
  have "\<And>be. Backend be \<notin> set ev"
    using ev(2) by (auto simp: part_of_def)
  then show ?thesis
    using u ev(1) ba b0 by (auto simp: iteration_fields start_job_outfn start_job_fields)
qed

lemma run_files_backend:
  assumes "take (length pre) (backendargs s) = pre"
  shows "(\<forall>i<length (snd (snd (run_files E cfg (length pre) junk k inputs s))).
            \<forall>be. Backend be \<in> set (snd (snd (run_files E cfg (length pre) junk k inputs s)) ! i)
              \<longrightarrow> be = pre @ [shell_escape E (canonical_list E cfg (k + 1 + int i) (inputs ! i))])
       \<and> take (length pre) (backendargs (fst (snd (run_files E cfg (length pre) junk k inputs s)))) = pre"
  using assms
proof (induction inputs arbitrary: k s)
  case Nil
  then show ?case by simp
next
  case (Cons inp rest)
  let ?it = "iteration E cfg (length pre) (k + 1) inp (junk (k + 1)) s"
  obtain oc s1 where it: "?it = (oc, s1)" by (cases ?it)
  have one: "\<forall>be. Backend be \<in> set (calls s1)
               \<longrightarrow> be = pre @ [shell_escape E (canonical_list E cfg (k + 1) inp)]"
    and inv1: "take (length pre) (backendargs s1) = pre"
    using iteration_backend [OF Cons.prems, of E cfg "k + 1" inp "junk (k + 1)"] it by simp_all
  show ?case
  proof (cases "fatal oc")
    case True
    then show ?thesis using it one inv1 by simp
  next
    case False
    obtain oc' s2 trs where rf: "run_files E cfg (length pre) junk (k + 1) rest s1 = (oc', s2, trs)"
      by (cases "run_files E cfg (length pre) junk (k + 1) rest s1") auto
    have IH: "(\<forall>i<length trs. \<forall>be. Backend be \<in> set (trs ! i)
              \<longrightarrow> be = pre @ [shell_escape E (canonical_list E cfg (k + 1 + 1 + int i) (rest ! i))])
       \<and> take (length pre) (backendargs s2) = pre"
      using Cons.IH [OF inv1, of "k + 1"] rf by simp
    have res: "run_files E cfg (length pre) junk k (inp # rest) s = (oc', s2, calls s1 # trs)"
      using it False rf by simp
    have "\<forall>i<length (calls s1 # trs). \<forall>be. Backend be \<in> set ((calls s1 # trs) ! i)
              \<longrightarrow> be = pre @ [shell_escape E (canonical_list E cfg (k + 1 + int i) ((inp # rest) ! i))]"
    proof (intro allI impI)
      fix i be
      assume i: "i < length (calls s1 # trs)" and be: "Backend be \<in> set ((calls s1 # trs) ! i)"
      show "be = pre @ [shell_escape E (canonical_list E cfg (k + 1 + int i) ((inp # rest) ! i))]"
      proof (cases i)
        case 0
        then show ?thesis using one be by simp
      next
        case (Suc i')
        then have "i' < length trs" "Backend be \<in> set (trs ! i')" using i be by simp_all
        then have "be = pre @ [shell_escape E (canonical_list E cfg (k + 1 + 1 + int i') (rest ! i'))]"
          using IH by blast
        moreover have "k + 1 + 1 + int i' = k + 1 + int i" using Suc by simp
        ultimately show ?thesis using Suc by (simp add: add.assoc)
      qed
    qed
    then show ?thesis using IH res by simp
  qed
qed

lemma start_job_solvedfn:
  "solvedfn (axy (start_job E cfg n k inp j s))
     = fst (trim_suffix (derive_base E cfg k inp)) @ ''.solved''"
  by (cases "trim_suffix (derive_base E cfg k inp)") (simp add: start_job_def Let_def)

lemma project_index_first:
  "calls (snd (project_index E s))
     = calls s @ [Rd2xy (wcsfn (axy s)) (rdlsfn (axy s)) (indxylsfn s)]"
  by (auto simp: project_index_def Let_def emit_def split: prod.splits)

lemma run_files_outcome:
  "(fst (run_files E cfg n junk k inputs s) = Proceed
      \<and> length (snd (snd (run_files E cfg n junk k inputs s))) = length inputs)
   \<or> fatal (fst (run_files E cfg n junk k inputs s))"
proof (induction inputs arbitrary: k s)
  case Nil
  then show ?case by simp
next
  case (Cons inp rest)
  obtain oc s1 where it: "iteration E cfg n (k + 1) inp (junk (k + 1)) s = (oc, s1)"
    by (cases "iteration E cfg n (k + 1) inp (junk (k + 1)) s")
  show ?case
  proof (cases "fatal oc")
    case True
    then show ?thesis using it by simp
  next
    case False
    obtain oc' s2 trs where rf: "run_files E cfg n junk (k + 1) rest s1 = (oc', s2, trs)"
      by (cases "run_files E cfg n junk (k + 1) rest s1") auto
    then show ?thesis using Cons.IH [of "k + 1" s1] it False by auto
  qed
qed

lemma upto_solve_facts:
  assumes up: "upto_solve E cfg s0 = (Proceed, s1)" and c0: "calls s0 = []"
  shows "solvedfn (axy s1) = solvedfn (axy s0) \<and> (\<forall>c\<in>set (calls s1). part_of c \<noteq> Reporting)"
proof -
  let ?r = "before_solve E cfg s0"
  obtain oc s4 where r: "?r = (oc, s4)" by (cases ?r)
  have p: "oc = Proceed"
    using up r by (cases "oc = Proceed") (auto simp: upto_solve_def)
  then have s1: "solve E s4 = (Proceed, s1)"
    using up r by (simp add: upto_solve_def)
  have nm: "solvedfn (axy s4) = solvedfn (axy s0)"
    using before_solve_names [of E cfg s0] r by (simp add: names_def)
  obtain ev where ev: "calls s4 = ev" "\<forall>c\<in>set ev. part_of c = Download \<or> part_of c = Preparing"
    using before_solve_extends [of s0 E cfg] c0 r by (auto simp: extends_def)
  show ?thesis
    using solve_effect [of E s4] s1 nm ev by (auto simp: part_of_def)
qed

subsection \<open>The solved-in string\<close>

lemma resolve_mem: "mem (snd (resolve cfg s)) = mem s"
  using resolve_disk_only [of cfg s] by (auto simp: mem_def)

lemma keeps_mem_download: "keeps mem (download E cfg)"
  unfolding keeps_def download_def
  by (auto simp: Let_def emit_def mem_def split: prod.splits option.splits)

lemma keeps_mem_classify: "keeps mem (classify E cfg)"
  unfolding keeps_def classify_def
  by (auto simp: Let_def emit_def mem_def split: prod.splits)

lemma keeps_mem_augment: "keeps mem (augment E)"
  unfolding keeps_def augment_def
  by (auto simp: Let_def emit_def mem_def split: prod.splits)

lemma keeps_mem_plot_objs: "keeps mem (plot_objs E cfg)"
  unfolding keeps_def plot_objs_def
  by (auto simp: Let_def emit_def mem_def split: prod.splits option.splits)

lemma keeps_mem_solve: "keeps mem (solve E)"
  unfolding keeps_def solve_def
  by (auto simp: Let_def emit_def mem_def split: prod.splits)

lemma keeps_mem_project_index: "keeps mem (project_index E)"
  unfolding keeps_def project_index_def
  by (auto simp: Let_def emit_def mem_def split: prod.splits)

lemma keeps_mem_read_wcs: "keeps mem (read_wcs E)"
  unfolding keeps_def read_wcs_def
  by (auto simp: Let_def emit_def mem_def)

lemma keeps_mem_plot_indx: "keeps mem (plot_indx E cfg)"
  unfolding keeps_def plot_indx_def
  by (auto simp: Let_def emit_def mem_def split: prod.splits option.splits match_read.splits)

lemma keeps_mem_plot_ngc: "keeps mem (plot_ngc E cfg)"
  unfolding keeps_def plot_ngc_def
  by (auto simp: Let_def emit_def mem_def split: prod.splits option.splits)

lemma keeps_mem_post_solve: "keeps mem (post_solve E cfg)"
  unfolding keeps_def
proof
  fix s
  show "mem (snd (post_solve E cfg s)) = mem s"
  proof (cases "file_exists (disk s) (solvedfn (axy s))")
    case False
    then show ?thesis by (simp add: post_solve_silent)
  next
    case True
    have "mem (snd (project_index E s)) = mem s"
      using keeps_mem_project_index by (simp add: keeps_def)
    then show ?thesis
      by (simp add: post_solve_entered [OF True] keeps_and_then [OF keeps_mem_plot_ngc]
          keeps_and_then [OF keeps_mem_plot_indx] keeps_and_then [OF keeps_mem_read_wcs])
  qed
qed

lemma body_mem: "mem (snd (body E cfg s)) = mem s"
  by (simp add: body_def upto_solve_def before_solve_def
      keeps_and_then [OF keeps_mem_post_solve] keeps_and_then [OF keeps_mem_solve]
      keeps_and_then [OF keeps_mem_plot_objs] keeps_and_then [OF keeps_mem_augment]
      keeps_and_then [OF keeps_mem_classify] keeps_and_then [OF keeps_mem_download] resolve_mem)

text \<open>The block at \<^verbatim>\<open>nextfile\<close> run on a string that is already freed frees it again.\<close>

lemma cleanup_double_free: "dangling s \<Longrightarrow> cleanup s = (BadFree, s)"
  by (auto simp: cleanup_def free_solvedin_def dangling_def split: option.splits)

lemma body_dangling: "dangling (snd (body E cfg s)) = dangling s"
  using body_mem [of E cfg s] by (simp add: dangling_def mem_def)

text \<open>A trip that starts with the solved-in string in place and whose body does not end
  the process gets through the block at \<^verbatim>\<open>nextfile\<close>.\<close>

lemma iteration_proceeds:
  assumes "\<not> dangling (start_job E cfg n k inp j s)"
    and "\<not> fatal (fst (body E cfg (start_job E cfg n k inp j s)))"
  shows "fst (iteration E cfg n k inp j s) = Proceed"
    and "disk (snd (iteration E cfg n k inp j s))
          = unlink_all (tempfiles (snd (body E cfg (start_job E cfg n k inp j s))))
              (disk (snd (body E cfg (start_job E cfg n k inp j s))))"
    and "tempfiles (snd (iteration E cfg n k inp j s)) = []"
    and "calls (snd (iteration E cfg n k inp j s))
          = calls (snd (body E cfg (start_job E cfg n k inp j s)))"
proof -
  let ?b = "body E cfg (start_job E cfg n k inp j s)"
  have nd: "\<not> dangling (snd ?b)"
    using assms(1) by (simp add: body_dangling)
  have it: "iteration E cfg n k inp j s = cleanup (snd ?b)"
    by (rule iteration_nextfile [OF assms])
  show "fst (iteration E cfg n k inp j s) = Proceed"
    and "disk (snd (iteration E cfg n k inp j s)) = unlink_all (tempfiles (snd ?b)) (disk (snd ?b))"
    and "tempfiles (snd (iteration E cfg n k inp j s)) = []"
    and "calls (snd (iteration E cfg n k inp j s)) = calls (snd ?b)"
    using cleanup_done [OF nd] by (simp_all add: it cleanup_fields)
qed

lemma iteration_skip:
  assumes "\<not> dangling (start_job E cfg n k inp junk s)"
    and "resolve cfg (start_job E cfg n k inp junk s) = (NextFile, start_job E cfg n k inp junk s)"
  shows "\<exists>s'. iteration E cfg n k inp junk s = (Proceed, s') \<and> disk s' = disk s \<and> calls s' = []"
proof -
  have b: "body E cfg (start_job E cfg n k inp junk s) = (NextFile, start_job E cfg n k inp junk s)"
    using body_stops_at_resolve [OF assms(2), of E] by simp
  then have nf: "\<not> fatal (fst (body E cfg (start_job E cfg n k inp junk s)))"
    by (simp add: fatal_def)
  from iteration_proceeds [OF assms(1) nf] b
  have "fst (iteration E cfg n k inp junk s) = Proceed"
    "disk (snd (iteration E cfg n k inp junk s)) = disk s"
    "calls (snd (iteration E cfg n k inp junk s)) = []"
    by (simp_all add: start_job_fields)
  then show ?thesis
    by (cases "iteration E cfg n k inp junk s") simp
qed

lemma iteration_exit_at_resolve:
  assumes "\<not> dangling (start_job E cfg n k inp junk s)"
    and "fst (resolve cfg (start_job E cfg n k inp junk s)) = ExitFailure"
  shows "fst (iteration E cfg n k inp junk s) = ExitFailure"
proof -
  obtain s' where "resolve cfg (start_job E cfg n k inp junk s) = (ExitFailure, s')"
    using assms(2) by (cases "resolve cfg (start_job E cfg n k inp junk s)") auto
  from body_stops_at_resolve [OF this, of E] have b:
    "body E cfg (start_job E cfg n k inp junk s) = (ExitFailure, s')" by simp
  then show ?thesis
    using iteration_fatal_body [OF assms(1)] by (simp add: fatal_def)
qed

subsection \<open>Existing output files\<close>

text \<open>
  What the scan of lines 413-431 does in a trip that starts with the solved-in string in
  place (there is none, or no earlier trip has freed it). Let one of the output paths
  that the loop scans for an input exist. With neither
  --overwrite nor --continue the trip ends at \<^verbatim>\<open>nextfile\<close> with the file system as it
  was and no collaborator called, and the loop goes on with the next input. With
  --continue the scan changes nothing and the body goes on. With --overwrite (and no
  --continue) the scan removes every scanned path that exists and the body goes on,
  unless \<^verbatim>\<open>unlink\<close> fails on one of them: then the run ends with \<^verbatim>\<open>exit(-1)\<close>.
\<close>

theorem existing_output_policy:
  assumes ok: "solvedinfn (allaxy cfg) = None \<or> \<not> solvedin_freed s"
    and ex: "\<exists>p\<in>set (outfiles (start_job E cfg n (k + 1) inp (junk (k + 1)) s)).
                 file_exists (disk s) p"
  shows "(\<not> overwrite cfg \<and> \<not> cont cfg \<longrightarrow>
            (\<exists>s'. iteration E cfg n (k + 1) inp (junk (k + 1)) s = (Proceed, s')
                 \<and> disk s' = disk s \<and> calls s' = []
                 \<and> run_files E cfg n junk k (inp # rest) s =
                     (case run_files E cfg n junk (k + 1) rest s' of
                        (oc, s'', trs) \<Rightarrow> (oc, s'', [] # trs))))
       \<and> (cont cfg \<longrightarrow>
            check_outfiles cfg (start_job E cfg n (k + 1) inp (junk (k + 1)) s)
              = (Proceed, start_job E cfg n (k + 1) inp (junk (k + 1)) s))
       \<and> (overwrite cfg \<and> \<not> cont cfg
            \<and> \<not> (\<exists>p\<in>set (outfiles (start_job E cfg n (k + 1) inp (junk (k + 1)) s)).
                     p \<in> present (disk s) \<and> p \<in> undeletable (disk s)) \<longrightarrow>
            check_outfiles cfg (start_job E cfg n (k + 1) inp (junk (k + 1)) s)
              = (Proceed, (start_job E cfg n (k + 1) inp (junk (k + 1)) s)
                   \<lparr>disk := (disk s)\<lparr>present := present (disk s)
                       - set (outfiles (start_job E cfg n (k + 1) inp (junk (k + 1)) s))\<rparr>\<rparr>))
       \<and> (overwrite cfg \<and> \<not> cont cfg
            \<and> (\<exists>p\<in>set (outfiles (start_job E cfg n (k + 1) inp (junk (k + 1)) s)).
                     p \<in> present (disk s) \<and> p \<in> undeletable (disk s))
            \<and> fst (check_solved cfg (start_job E cfg n (k + 1) inp (junk (k + 1)) s)) = Proceed \<longrightarrow>
            fst (run_files E cfg n junk k (inp # rest) s) = ExitFailure
            \<and> ending_of (fst (run_files E cfg n junk k (inp # rest) s)) = Exits (- 1))"
  (is "?A \<and> ?B \<and> ?C \<and> ?D")
proof -
  let ?s0 = "start_job E cfg n (k + 1) inp (junk (k + 1)) s"
  have d0: "disk ?s0 = disk s" by (simp add: start_job_fields)
  have nd: "\<not> dangling ?s0" using ok by (auto simp: dangling_start_job)
  have A: ?A
  proof
    assume pol: "\<not> overwrite cfg \<and> \<not> cont cfg"
    have "resolve cfg ?s0 = (NextFile, ?s0)"
      using pol ex by (intro resolve_default) (simp_all add: d0)
    from iteration_skip [OF nd this] obtain s' where
      it: "iteration E cfg n (k + 1) inp (junk (k + 1)) s = (Proceed, s')"
      and s': "disk s' = disk s" "calls s' = []" by blast
    show "\<exists>s'. iteration E cfg n (k + 1) inp (junk (k + 1)) s = (Proceed, s')
                 \<and> disk s' = disk s \<and> calls s' = []
                 \<and> run_files E cfg n junk k (inp # rest) s =
                     (case run_files E cfg n junk (k + 1) rest s' of
                        (oc, s'', trs) \<Rightarrow> (oc, s'', [] # trs))"
      using it s' by (intro exI [of _ s']) (simp add: fatal_def)
  qed
  have B: ?B by (simp add: check_outfiles_cont)
  have C: ?C using check_outfiles_overwrite_ok [of cfg ?s0] by (simp add: d0)
  have D: ?D
  proof
    assume h: "overwrite cfg \<and> \<not> cont cfg
            \<and> (\<exists>p\<in>set (outfiles ?s0). p \<in> present (disk s) \<and> p \<in> undeletable (disk s))
            \<and> fst (check_solved cfg ?s0) = Proceed"
    then have cs: "check_solved cfg ?s0 = (Proceed, ?s0)"
      using check_solved_cases [of cfg ?s0] by auto
    have "fst (check_outfiles cfg ?s0) = ExitFailure"
      using h by (intro check_outfiles_overwrite_fails) (simp_all add: d0)
    then have "fst (resolve cfg ?s0) = ExitFailure"
      by (simp add: resolve_def cs)
    then have it: "fst (iteration E cfg n (k + 1) inp (junk (k + 1)) s) = ExitFailure"
      by (rule iteration_exit_at_resolve [OF nd])
    then have rf: "fst (run_files E cfg n junk k (inp # rest) s) = ExitFailure"
      by (cases "iteration E cfg n (k + 1) inp (junk (k + 1)) s") (simp add: fatal_def)
    show "fst (run_files E cfg n junk k (inp # rest) s) = ExitFailure
            \<and> ending_of (fst (run_files E cfg n junk k (inp # rest) s)) = Exits (- 1)"
      using rf by (simp add: ending_of_def)
  qed
  from A B C D show ?thesis by blast
qed

theorem existing_output_policy_witness:
  "fst (iteration env0 cfg0 1 1 ''sky.png'' False (st0 (disk_with {''sky.axy''}))) = Proceed
   \<and> present (disk (snd (check_outfiles (cfg0\<lparr>overwrite := True\<rparr>)
        (start_job env0 (cfg0\<lparr>overwrite := True\<rparr>) 1 1 ''sky.png'' False
           (st0 (disk_with {''sky.axy''})))))) = {}
   \<and> ending_of (fst (run_files env0 (cfg0\<lparr>overwrite := True\<rparr>) 1 no_junk 0 [''sky.png'']
        (st0 \<lparr>present = {''sky.axy''}, undeletable = {''sky.axy''}\<rparr>))) = Exits (- 1)"
proof -
  let ?over = "cfg0\<lparr>overwrite := True\<rparr>"
  let ?locked = "\<lparr>present = {''sky.axy''}, undeletable = {''sky.axy''}\<rparr>"
  have ok1: "solvedinfn (allaxy cfg0) = None \<or> \<not> solvedin_freed (st0 (disk_with {''sky.axy''}))"
    by (simp add: ex_defs)
  have ok2: "solvedinfn (allaxy ?over) = None \<or> \<not> solvedin_freed (st0 (disk_with {''sky.axy''}))"
    by (simp add: ex_defs)
  have ok3: "solvedinfn (allaxy ?over) = None \<or> \<not> solvedin_freed (st0 ?locked)"
    by (simp add: ex_defs)
  have h1: "\<exists>p\<in>set (outfiles (start_job env0 cfg0 1 (0 + 1) ''sky.png'' (no_junk (0 + 1))
              (st0 (disk_with {''sky.axy''})))). file_exists (disk (st0 (disk_with {''sky.axy''}))) p"
    by (simp add: ex_defs)
  have p1: "\<not> overwrite cfg0 \<and> \<not> cont cfg0"
    by (simp add: cfg0_def)
  have h2: "\<exists>p\<in>set (outfiles (start_job env0 ?over 1 (0 + 1) ''sky.png'' (no_junk (0 + 1))
              (st0 (disk_with {''sky.axy''})))). file_exists (disk (st0 (disk_with {''sky.axy''}))) p"
    by (simp add: ex_defs)
  have p2: "overwrite ?over \<and> \<not> cont ?over
     \<and> \<not> (\<exists>p\<in>set (outfiles (start_job env0 ?over 1 (0 + 1) ''sky.png'' (no_junk (0 + 1))
              (st0 (disk_with {''sky.axy''})))).
            p \<in> present (disk (st0 (disk_with {''sky.axy''})))
            \<and> p \<in> undeletable (disk (st0 (disk_with {''sky.axy''}))))"
    by (simp add: cfg0_def st0_def disk_with_def)
  have h3: "\<exists>p\<in>set (outfiles (start_job env0 ?over 1 (0 + 1) ''sky.png'' (no_junk (0 + 1))
              (st0 ?locked))). file_exists (disk (st0 ?locked)) p"
    by (simp add: ex_defs)
  have p3: "overwrite ?over \<and> \<not> cont ?over
     \<and> (\<exists>p\<in>set (outfiles (start_job env0 ?over 1 (0 + 1) ''sky.png'' (no_junk (0 + 1))
              (st0 ?locked))).
            p \<in> present (disk (st0 ?locked)) \<and> p \<in> undeletable (disk (st0 ?locked)))
     \<and> fst (check_solved ?over (start_job env0 ?over 1 (0 + 1) ''sky.png'' (no_junk (0 + 1))
              (st0 ?locked))) = Proceed"
    by (simp add: ex_defs)
  note a = existing_output_policy [where E = env0 and cfg = cfg0 and n = 1 and k = 0 and inp = "''sky.png''"
      and junk = no_junk and s = "st0 (disk_with {''sky.axy''})" and rest = "[]",
      OF ok1 h1, THEN conjunct1, THEN mp, OF p1]
  note c = existing_output_policy [where E = env0 and cfg = ?over and n = 1 and k = 0 and inp = "''sky.png''"
      and junk = no_junk and s = "st0 (disk_with {''sky.axy''})" and rest = "[]",
      OF ok2 h2, THEN conjunct2, THEN conjunct2, THEN conjunct1, THEN mp, OF p2]
  note d = existing_output_policy [where E = env0 and cfg = ?over and n = 1 and k = 0 and inp = "''sky.png''"
      and junk = no_junk and s = "st0 ?locked" and rest = "[]",
      OF ok3 h3, THEN conjunct2, THEN conjunct2, THEN conjunct2, THEN mp, OF p3]
  from a have "fst (iteration env0 cfg0 1 1 ''sky.png'' False (st0 (disk_with {''sky.axy''}))) = Proceed"
    by (auto simp: no_junk_def)
  moreover from c have "present (disk (snd (check_outfiles ?over
        (start_job env0 ?over 1 1 ''sky.png'' False (st0 (disk_with {''sky.axy''})))))) = {}"
    by (simp add: ex_defs)
  moreover from d have "ending_of (fst (run_files env0 ?over 1 no_junk 0 [''sky.png''] (st0 ?locked)))
      = Exits (- 1)"
    by blast
  ultimately show ?thesis by blast
qed



text \<open>
  C1. A run with a solved-in file \<open>old.solved\<close>, no policy option, the inputs \<open>a.png\<close> and
  \<open>b.png\<close>, and \<open>b.axy\<close> on disk. The trip for \<open>a.png\<close> arrives at \<^verbatim>\<open>nextfile\<close>, where line
  692 frees the solved-in string, which belongs to \<^verbatim>\<open>allaxy\<close>. The trip for \<open>b.png\<close>, an
  input with an output path that exists, then reads the freed string at line 391: it is
  not a skip after which the loop goes on, and the run does not return.
\<close>

theorem skip_follows_freed_solved_in:
  "fst (iteration env0 cfg_solved_elsewhere 1 1 ''a.png'' False (st0 (disk_with {''b.axy''}))) = Proceed
   \<and> solvedin_freed
        (snd (iteration env0 cfg_solved_elsewhere 1 1 ''a.png'' False (st0 (disk_with {''b.axy''}))))
   \<and> ''b.axy'' \<in> set (outfiles (start_job env0 cfg_solved_elsewhere 1 2 ''b.png'' False
        (snd (iteration env0 cfg_solved_elsewhere 1 1 ''a.png'' False (st0 (disk_with {''b.axy''}))))))
   \<and> file_exists
        (disk (snd (iteration env0 cfg_solved_elsewhere 1 1 ''a.png'' False (st0 (disk_with {''b.axy''})))))
        ''b.axy''
   \<and> fst (iteration env0 cfg_solved_elsewhere 1 2 ''b.png'' False
        (snd (iteration env0 cfg_solved_elsewhere 1 1 ''a.png'' False (st0 (disk_with {''b.axy''})))))
      = BadRead
   \<and> fst (main_loop env0 cfg_solved_elsewhere no_junk [''a.png'', ''b.png'']
        (st0 (disk_with {''b.axy''}))) = Undefined"
  by (simp add: ex_defs)

subsection \<open>Skipping solved inputs\<close>

text \<open>
  C2. With --skip-solved and --continue, no solved-in file, and \<open>foo.solved\<close> on disk
  before the trip for \<open>foo.png\<close> starts: the solved file of the input exists, yet the
  check of lines 400-411 does not jump to \<^verbatim>\<open>nextfile\<close>, because the file it tests is
  \<^verbatim>\<open>axy->solvedinfn\<close>, a null pointer, at both entries of \<^verbatim>\<open>tocheck\<close>. The trip goes on
  and calls the classifier, the temporary-file routine and the preparer.
\<close>

theorem skip_solved_tests_wrong_path:
  "file_exists (disk_with {''foo.solved''})
      (solvedfn (axy (start_job env0 cfg_skip_continue 1 1 ''foo.png'' False (st0 (disk_with {''foo.solved''})))))
   \<and> fst (check_solved cfg_skip_continue
        (start_job env0 cfg_skip_continue 1 1 ''foo.png'' False (st0 (disk_with {''foo.solved''})))) = Proceed
   \<and> take 3 (calls (snd (iteration env0 cfg_skip_continue 1 1 ''foo.png'' False (st0 (disk_with {''foo.solved''})))))
      = [Classify ''foo.png'', TempFile ''/tmp/tmp.ppm'',
         Augment \<lparr>outfn = ''foo.axy'', matchfn = ''foo.match'', rdlsfn = ''foo.rdls'',
           solvedfn = ''foo.solved'', wcsfn = ''foo.wcs'', solvedinfn = None,
           xylsfn = None, imagefn = Some ''foo.png'', pnmfn = Some ''/tmp/tmp.ppm'', force_ppm = True\<rparr>]"
  by (simp add: ex_defs)

subsection \<open>Temporary files\<close>

text \<open>
  C3 does not hold for a trip that ends the process, nor for a temporary file that
  \<^verbatim>\<open>unlink\<close> refuses. The trip for the image \<open>sky.png\<close> in which the preparer fails ends
  with \<^verbatim>\<open>exit(-1)\<close> (lines 482-485); the temporary file registered for the input is still
  on disk when the process ends. In the trip for \<open>sky.png\<close> in which every program
  succeeds and \<^verbatim>\<open>unlink\<close> fails on the temporary file, the failure is reported (line
  696), the loop goes on, and the file is still on disk.
\<close>

theorem temp_file_left_on_exit:
  "fst (iteration env_augment_fails cfg0 1 1 ''sky.png'' False (st0 (disk_with {}))) = ExitFailure
   \<and> tempfiles (snd (iteration env_augment_fails cfg0 1 1 ''sky.png'' False (st0 (disk_with {}))))
       = [''/tmp/tmp.ppm'']
   \<and> file_exists (disk (snd (iteration env_augment_fails cfg0 1 1 ''sky.png'' False (st0 (disk_with {})))))
       ''/tmp/tmp.ppm''
   \<and> fst (iteration env0 cfg0 1 1 ''sky.png'' False
        (st0 \<lparr>present = {}, undeletable = {''/tmp/tmp.ppm''}\<rparr>)) = Proceed
   \<and> ''/tmp/tmp.ppm'' \<in> set (tempfiles (snd (body env0 cfg0
        (start_job env0 cfg0 1 1 ''sky.png'' False
           (st0 \<lparr>present = {}, undeletable = {''/tmp/tmp.ppm''}\<rparr>)))))
   \<and> file_exists (disk (snd (iteration env0 cfg0 1 1 ''sky.png'' False
        (st0 \<lparr>present = {}, undeletable = {''/tmp/tmp.ppm''}\<rparr>)))) ''/tmp/tmp.ppm''"
  by (simp add: ex_defs)

text \<open>
  C3, as the code has it, for a trip that starts with the solved-in string in place
  (there is none, or no earlier trip has freed it). When the body of the trip does not
  end the process, the trip arrives at \<^verbatim>\<open>nextfile\<close> and gets through the block there:
  every temporary file registered for the input is passed to \<^verbatim>\<open>unlink\<close> before the next
  input begins, and none of them exists afterwards unless \<^verbatim>\<open>unlink\<close> refuses it. When the
  body ends the process, nothing is cleaned up: the state is as the body left it.
\<close>

theorem temp_files_unlinked_at_nextfile:
  assumes ok: "solvedinfn (allaxy cfg) = None \<or> \<not> solvedin_freed s"
  shows "(\<not> fatal (fst (body E cfg (start_job E cfg n k inp j s))) \<longrightarrow>
      fst (iteration E cfg n k inp j s) = Proceed
      \<and> tempfiles (snd (iteration E cfg n k inp j s)) = []
      \<and> disk (snd (iteration E cfg n k inp j s))
          = unlink_all (tempfiles (snd (body E cfg (start_job E cfg n k inp j s))))
              (disk (snd (body E cfg (start_job E cfg n k inp j s))))
      \<and> (\<forall>t\<in>set (tempfiles (snd (body E cfg (start_job E cfg n k inp j s)))).
            t \<notin> undeletable (disk (snd (body E cfg (start_job E cfg n k inp j s))))
            \<longrightarrow> \<not> file_exists (disk (snd (iteration E cfg n k inp j s))) t))
   \<and> (fatal (fst (body E cfg (start_job E cfg n k inp j s))) \<longrightarrow>
        iteration E cfg n k inp j s = body E cfg (start_job E cfg n k inp j s))"
proof -
  have nd: "\<not> dangling (start_job E cfg n k inp j s)"
    using ok by (auto simp: dangling_start_job)
  show ?thesis
    using iteration_proceeds [OF nd] iteration_fatal_body [OF nd]
    by (auto simp: file_exists_def unlink_all_present)
qed

theorem temp_files_unlinked_at_nextfile_witness:
  "\<not> file_exists (disk (snd (iteration env0 cfg0 1 1 ''sky.png'' False (st0 (disk_with {})))))
       ''/tmp/tmp.ppm''
   \<and> ''/tmp/tmp.ppm'' \<in> set (tempfiles (snd (body env0 cfg0
         (start_job env0 cfg0 1 1 ''sky.png'' False (st0 (disk_with {}))))))
   \<and> iteration env_augment_fails cfg0 1 1 ''sky.png'' False (st0 (disk_with {}))
      = body env_augment_fails cfg0 (start_job env_augment_fails cfg0 1 1 ''sky.png'' False (st0 (disk_with {})))"
proof -
  let ?S = "start_job env0 cfg0 1 1 ''sky.png'' False (st0 (disk_with {}))"
  have ok: "solvedinfn (allaxy cfg0) = None \<or> \<not> solvedin_freed (st0 (disk_with {}))"
    by (simp add: ex_defs)
  have nf: "\<not> fatal (fst (body env0 cfg0 ?S))"
    by (simp add: ex_defs)
  have mem: "''/tmp/tmp.ppm'' \<in> set (tempfiles (snd (body env0 cfg0 ?S)))"
    by (simp add: ex_defs)
  have nu: "''/tmp/tmp.ppm'' \<notin> undeletable (disk (snd (body env0 cfg0 ?S)))"
    by (simp add: ex_defs)
  have ft: "fatal (fst (body env_augment_fails cfg0
      (start_job env_augment_fails cfg0 1 1 ''sky.png'' False (st0 (disk_with {})))))"
    by (simp add: ex_defs)
  note a = temp_files_unlinked_at_nextfile [where E = env0 and cfg = cfg0 and n = 1 and k = 1
      and inp = "''sky.png''" and j = False and s = "st0 (disk_with {})",
      OF ok, THEN conjunct1, THEN mp, OF nf,
      THEN conjunct2, THEN conjunct2, THEN conjunct2, rule_format, OF mem nu]
  note b = temp_files_unlinked_at_nextfile [where E = env_augment_fails and cfg = cfg0 and n = 1
      and k = 1 and inp = "''sky.png''" and j = False and s = "st0 (disk_with {})",
      OF ok, THEN conjunct2, THEN mp, OF ft]
  from a b mem show ?thesis by blast
qed

subsection \<open>Downloading\<close>

lemma classify_effect:
  "fst (classify E cfg s) = Proceed
   \<and> (xylsfn (axy (snd (classify E cfg s))) = Some (infile s)
        \<or> imagefn (axy (snd (classify E cfg s))) = Some (infile s))
   \<and> (\<forall>c\<in>set (calls (snd (classify E cfg s))). (\<forall>a. c \<noteq> Augment a) \<or> c \<in> set (calls s))"
  by (auto simp: classify_def Let_def emit_def split: prod.splits)

lemma augment_calls: "calls (snd (augment E s)) = calls s @ [Augment (axy s)]"
  by (auto simp: augment_def Let_def emit_def split: prod.splits)

lemma adds_plot_objs_no_augment: "adds (\<lambda>c. \<forall>a. c \<noteq> Augment a) (plot_objs E cfg)"
  unfolding adds_def plot_objs_def
  by (auto simp: Let_def emit_def split: prod.splits option.splits)

text \<open>The structure handed to the preparer names the file that was classified.\<close>

lemma augment_of_infile:
  assumes "\<forall>c\<in>set (calls s). \<forall>a. c \<noteq> Augment a"
  shows "\<forall>a. Augment a \<in> set (calls (snd
            (and_then (and_then (and_then (and_then (classify E cfg s) (augment E))
               (plot_objs E cfg)) (solve E)) (post_solve E cfg))))
          \<longrightarrow> xylsfn a = Some (infile s) \<or> imagefn a = Some (infile s)"
proof -
  let ?K = "\<lambda>c. \<forall>a. c \<noteq> Augment a"
  obtain s3 where c3: "classify E cfg s = (Proceed, s3)"
    using classify_effect [of E cfg s] by (cases "classify E cfg s") simp
  have nm: "xylsfn (axy s3) = Some (infile s) \<or> imagefn (axy s3) = Some (infile s)"
    and k3: "\<forall>c\<in>set (calls s3). ?K c"
    using classify_effect [of E cfg s] c3 assms by auto
  have b: "adds ?K (plot_objs E cfg)" by (rule adds_plot_objs_no_augment)
  have c: "adds ?K (solve E)" by (rule adds_mono [OF adds_solve]) (auto simp: part_of_def)
  have d: "adds ?K (post_solve E cfg)" by (rule adds_mono [OF adds_post_solve]) (auto simp: part_of_def)
  note 1 = extends_and_then [OF b, of "augment E s3"]
  note 2 = extends_step [OF 1 c]
  note 3 = extends_step [OF 2 d]
  obtain ev where "calls (snd (and_then (and_then (and_then (augment E s3)
               (plot_objs E cfg)) (solve E)) (post_solve E cfg)))
      = calls s3 @ [Augment (axy s3)] @ ev" and "\<forall>c\<in>set ev. ?K c"
    using 3 by (auto simp: extends_def augment_calls)
  then show ?thesis
    using k3 nm by (auto simp: c3)
qed

text \<open>
  What the download step does in a trip that starts with the solved-in string in place
  and reaches line 433 (the two checks before it fell through): the fetch command is run
  in this trip if and only if the input does not exist as a file and begins, up to
  case, with \<open>http://\<close> or \<open>ftp://\<close>. When the command does not end with exit status 0 (a
  nonzero status, a signal, or \<^verbatim>\<open>system\<close> failing), the trip stops at the read of the
  emptied token list: the fetch is its only call and no further input is processed.
  When the command succeeds, \<^verbatim>\<open>infile\<close> is the downloaded copy from then on: it is the
  file that is classified next and the file the preparer is given.
\<close>

theorem fetch_stage:
  assumes ok: "solvedinfn (allaxy cfg) = None \<or> \<not> solvedin_freed s"
    and res: "resolve cfg (start_job E cfg n (k + 1) inp (junk (k + 1)) s) = (Proceed, s1)"
  shows "((\<exists>cmd. Fetch cmd \<in> set (calls (snd (body E cfg (start_job E cfg n (k + 1) inp (junk (k + 1)) s)))))
            \<longleftrightarrow> \<not> file_exists (disk s1) inp \<and> is_url inp)
       \<and> (is_url inp \<longleftrightarrow>
            map tolower (take 7 inp) = ''http://'' \<or> map tolower (take 6 inp) = ''ftp://'')
       \<and> (is_url ''HTTP://host/a'' \<and> is_url ''Ftp://host/a''
            \<and> \<not> is_url ''https://host/a'' \<and> \<not> is_url ''ftp:/'')
       \<and> (\<not> file_exists (disk s1) inp \<and> is_url inp
            \<and> fst (system E (sl_implode (fetch_tokens E cfg s1) '' '') (disk s1)) \<noteq> Exited 0 \<longrightarrow>
            fst (run_files E cfg n junk k (inp # rest) s) = BadRead
            \<and> ending_of (fst (run_files E cfg n junk k (inp # rest) s)) = Undefined
            \<and> snd (snd (run_files E cfg n junk k (inp # rest) s))
                = [[Fetch (sl_implode (fetch_tokens E cfg s1) '' '')]])
       \<and> (\<not> file_exists (disk s1) inp \<and> is_url inp
            \<and> fst (system E (sl_implode (fetch_tokens E cfg s1) '' '') (disk s1)) = Exited 0 \<longrightarrow>
            fst (download E cfg s1) = Proceed
            \<and> infile (snd (download E cfg s1))
                = downloadfn (start_job E cfg n (k + 1) inp (junk (k + 1)) s)
            \<and> (\<exists>ev. calls (snd (body E cfg (start_job E cfg n (k + 1) inp (junk (k + 1)) s)))
                  = Fetch (sl_implode (fetch_tokens E cfg s1) '' '')
                    # Classify (downloadfn (start_job E cfg n (k + 1) inp (junk (k + 1)) s)) # ev)
            \<and> (\<forall>a. Augment a \<in> set (calls (snd (body E cfg (start_job E cfg n (k + 1) inp (junk (k + 1)) s))))
                  \<longrightarrow> xylsfn a = Some (downloadfn (start_job E cfg n (k + 1) inp (junk (k + 1)) s))
                      \<or> imagefn a = Some (downloadfn (start_job E cfg n (k + 1) inp (junk (k + 1)) s))))"
  (is "?A \<and> ?B \<and> ?X \<and> ?C \<and> ?D")
proof -
  let ?s0 = "start_job E cfg n (k + 1) inp (junk (k + 1)) s"
  let ?cmd = "sl_implode (fetch_tokens E cfg s1) '' ''"
  let ?cond = "\<not> file_exists (disk s1) inp \<and> is_url inp"
  let ?chain = "\<lambda>r. and_then (and_then (and_then (and_then (and_then r (classify E cfg))
       (augment E)) (plot_objs E cfg)) (solve E)) (post_solve E cfg)"
  have f: "calls s1 = []" "infile s1 = inp" "downloadfn s1 = downloadfn ?s0"
    using resolve_proceeds_fields [OF res] by (simp_all add: start_job_fields)
  have body: "body E cfg ?s0 = ?chain (download E cfg s1)"
    by (rule body_after_resolve [OF res])
  have dl: "calls (snd (download E cfg s1)) = (if ?cond then [Fetch ?cmd] else [])"
    using download_calls [of E cfg s1] by (simp add: f)
  obtain ev where ev: "calls (snd (body E cfg ?s0)) = calls (snd (download E cfg s1)) @ ev"
    and nd: "\<forall>c\<in>set ev. part_of c \<noteq> Download"
    using after_download_extends [of "download E cfg s1" E cfg] body
    by (auto simp: extends_def)
  have nf: "\<And>cmd. Fetch cmd \<notin> set ev"
    using nd by (auto simp: part_of_def)
  have A: ?A
    using ev dl nf by auto
  have nd: "\<not> dangling ?s0" using ok by (auto simp: dangling_start_job)
  have B: ?B by (rule is_url_prefix)
  have X: ?X by (simp add: is_url_def strncasecmp_eq_def tolower_def)
  have C: ?C
  proof
    assume h: "\<not> file_exists (disk s1) inp \<and> is_url inp
      \<and> fst (system E ?cmd (disk s1)) \<noteq> Exited 0"
    then have bad: "fst (download E cfg s1) = BadRead"
      using download_fails [of s1 E cfg] by (simp add: f)
    then have b: "body E cfg ?s0 = download E cfg s1"
      using body_stops_at_download [OF res, of E] by simp
    have it: "iteration E cfg n (k + 1) inp (junk (k + 1)) s = download E cfg s1"
      using bad iteration_fatal_body [OF nd] by (simp add: b fatal_def)
    have cl: "calls (snd (download E cfg s1)) = [Fetch ?cmd]"
      using dl h by simp
    show "fst (run_files E cfg n junk k (inp # rest) s) = BadRead
            \<and> ending_of (fst (run_files E cfg n junk k (inp # rest) s)) = Undefined
            \<and> snd (snd (run_files E cfg n junk k (inp # rest) s)) = [[Fetch ?cmd]]"
      using bad cl by (cases "download E cfg s1") (simp add: it fatal_def ending_of_def)
  qed
  have D: ?D
  proof
    assume h: "\<not> file_exists (disk s1) inp \<and> is_url inp
      \<and> fst (system E ?cmd (disk s1)) = Exited 0"
    then have dok: "fst (download E cfg s1) = Proceed"
      and inf: "infile (snd (download E cfg s1)) = downloadfn ?s0"
      using download_succeeds [of s1 E cfg] by (simp_all add: f)
    obtain s2 where s2: "download E cfg s1 = (Proceed, s2)"
      using dok by (cases "download E cfg s1") simp
    have cl: "calls s2 = [Fetch ?cmd]" using dl h s2 by simp
    obtain t where t: "calls (snd (classify E cfg s2)) = calls s2 @ Classify (infile s2) # t"
      using classify_first_call by blast
    have "body E cfg ?s0 = and_then (and_then (and_then (and_then (classify E cfg s2)
       (augment E)) (plot_objs E cfg)) (solve E)) (post_solve E cfg)"
      by (simp add: body s2)
    then obtain ev' where "calls (snd (body E cfg ?s0)) = calls (snd (classify E cfg s2)) @ ev'"
      using tail_extends [of "classify E cfg s2" E cfg] by (auto simp: extends_def)
    then have seq: "calls (snd (body E cfg ?s0)) = Fetch ?cmd # Classify (downloadfn ?s0) # (t @ ev')"
      using t cl inf s2 by simp
    have aug: "\<forall>a. Augment a \<in> set (calls (snd (body E cfg ?s0)))
                  \<longrightarrow> xylsfn a = Some (downloadfn ?s0) \<or> imagefn a = Some (downloadfn ?s0)"
      using augment_of_infile [where s = s2 and E = E and cfg = cfg] cl inf s2 by (simp add: body)
    show "fst (download E cfg s1) = Proceed
            \<and> infile (snd (download E cfg s1)) = downloadfn ?s0
            \<and> (\<exists>ev. calls (snd (body E cfg ?s0)) = Fetch ?cmd # Classify (downloadfn ?s0) # ev)
            \<and> (\<forall>a. Augment a \<in> set (calls (snd (body E cfg ?s0)))
                  \<longrightarrow> xylsfn a = Some (downloadfn ?s0) \<or> imagefn a = Some (downloadfn ?s0))"
      using dok seq aug inf by blast
  qed
  from A B X C D show ?thesis by blast
qed

theorem fetch_stage_witness:
  "snd (snd (run_files (env_command_exits 7) cfg0 1 no_junk 0 [''HTTP://host/img.fits'', ''sky.png'']
       (st0 (disk_with {}))))
     = [[Fetch ''curl --silent --output img-downloaded.fits HTTP://host/img.fits'']]
   \<and> (\<exists>ev. calls (snd (body env0 cfg0
          (start_job env0 cfg0 1 (0 + 1) ''HTTP://host/img.fits'' (no_junk (0 + 1)) (st0 (disk_with {})))))
        = Fetch ''curl --silent --output img-downloaded.fits HTTP://host/img.fits''
          # Classify ''img-downloaded.fits'' # ev)"
proof -
  let ?u = "''HTTP://host/img.fits''"
  let ?E = "env_command_exits 7"
  let ?s0 = "start_job ?E cfg0 1 (0 + 1) ?u (no_junk (0 + 1)) (st0 (disk_with {}))"
  let ?t0 = "start_job env0 cfg0 1 (0 + 1) ?u (no_junk (0 + 1)) (st0 (disk_with {}))"
  have ok: "solvedinfn (allaxy cfg0) = None \<or> \<not> solvedin_freed (st0 (disk_with {}))"
    by (simp add: ex_defs)
  have r1: "resolve cfg0 ?s0 = (Proceed, ?s0)"
    by (simp add: ex_defs)
  have tok1: "sl_implode (fetch_tokens ?E cfg0 ?s0) '' ''
      = ''curl --silent --output img-downloaded.fits HTTP://host/img.fits''"
    by (simp add: ex_defs)
  have p1: "\<not> file_exists (disk ?s0) ?u \<and> is_url ?u
      \<and> fst (system ?E (sl_implode (fetch_tokens ?E cfg0 ?s0) '' '') (disk ?s0)) \<noteq> Exited 0"
    by (simp add: ex_defs)
  have r2: "resolve cfg0 ?t0 = (Proceed, ?t0)"
    by (simp add: ex_defs)
  have tok2: "sl_implode (fetch_tokens env0 cfg0 ?t0) '' ''
      = ''curl --silent --output img-downloaded.fits HTTP://host/img.fits''"
    by (simp add: ex_defs)
  have dl2: "downloadfn ?t0 = ''img-downloaded.fits''"
    by (simp add: ex_defs)
  have p2: "\<not> file_exists (disk ?t0) ?u \<and> is_url ?u
      \<and> fst (system env0 (sl_implode (fetch_tokens env0 cfg0 ?t0) '' '') (disk ?t0)) = Exited 0"
    by (simp add: ex_defs)
  note c = fetch_stage [where E = ?E and cfg = cfg0 and n = 1 and k = 0 and inp = ?u and junk = no_junk
      and s = "st0 (disk_with {})" and ?s1.0 = ?s0 and rest = "[''sky.png'']",
      OF ok r1, THEN conjunct2, THEN conjunct2, THEN conjunct2, THEN conjunct1, THEN mp, OF p1]
  note d = fetch_stage [where E = env0 and cfg = cfg0 and n = 1 and k = 0 and inp = ?u and junk = no_junk
      and s = "st0 (disk_with {})" and ?s1.0 = ?t0 and rest = "[]",
      OF ok r2, THEN conjunct2, THEN conjunct2, THEN conjunct2, THEN conjunct2, THEN mp, OF p2]
  from c d show ?thesis unfolding tok1 tok2 dl2 by blast
qed




text \<open>
  C10. The trip for \<open>http://host/img.fits\<close> in which the fetch command exits with
  status 7: the token list has been emptied by \<^verbatim>\<open>sl_remove_all\<close> before the command ran,
  so the read of its element 0 for the diagnostic is outside the list.
\<close>

theorem fetch_diagnostic_reads_empty_list:
  "fst (iteration (env_command_exits 7) cfg0 1 1 ''http://host/img.fits'' False (st0 (disk_with {})))
     = BadRead
   \<and> calls (snd (iteration (env_command_exits 7) cfg0 1 1 ''http://host/img.fits'' False (st0 (disk_with {}))))
     = [Fetch ''curl --silent --output img-downloaded.fits http://host/img.fits'']
   \<and> sl_get (cmdline (snd (iteration (env_command_exits 7) cfg0 1 1 ''http://host/img.fits'' False
        (st0 (disk_with {}))))) 0 = None"
  by (simp add: ex_defs)

subsection \<open>The first plot\<close>

text \<open>
  C5. The trip for the image \<open>sky.png\<close> in which the first plotting command exits with
  status 1, killed by no signal. \<^verbatim>\<open>run_command\<close> never clears \<^verbatim>\<open>ctrlc\<close> and \<^verbatim>\<open>main\<close> never
  initialises it: when the flag happens to hold a nonzero value the trip ends with
  \<^verbatim>\<open>exit(-1)\<close>; when it happens to be clear the trip goes on with plotting disabled.
\<close>

theorem plot_failure_reads_stale_flag:
  "fst (iteration (env_command_exits 1) cfg0 1 1 ''sky.png'' True (st0 (disk_with {}))) = ExitFailure
   \<and> fst (iteration (env_command_exits 1) cfg0 1 1 ''sky.png'' False (st0 (disk_with {}))) = Proceed
   \<and> \<not> makeplots (snd (iteration (env_command_exits 1) cfg0 1 1 ''sky.png'' False (st0 (disk_with {}))))"
  by (simp add: ex_defs)

subsection \<open>The gate after the backend\<close>

lemma and_then_Proceed: "fst (and_then r f) = Proceed \<Longrightarrow> fst r = Proceed"
  by (cases r; cases "fst r = Proceed") auto

lemma resolve_makeplots: "makeplots (snd (resolve cfg s)) = makeplots s"
  using resolve_disk_only [of cfg s] by auto

lemma keeps_makeplots_download: "keeps makeplots (download E cfg)"
  unfolding keeps_def download_def
  by (auto simp: Let_def emit_def split: prod.splits option.splits)

lemma keeps_makeplots_classify: "keeps makeplots (classify E cfg)"
  unfolding keeps_def classify_def
  by (auto simp: Let_def emit_def split: prod.splits)

lemma keeps_makeplots_augment: "keeps makeplots (augment E)"
  unfolding keeps_def augment_def
  by (auto simp: Let_def emit_def split: prod.splits)

lemma plot_objs_called:
  "makeplots s \<Longrightarrow> fst (plot_objs E cfg s) = Proceed \<Longrightarrow>
   \<exists>cmd. PlotObjs cmd \<in> set (calls (snd (plot_objs E cfg s)))"
  by (auto simp: plot_objs_def Let_def emit_def split: prod.splits option.splits if_splits)

lemma solve_calls_grow: "set (calls s) \<subseteq> set (calls (snd (solve E s)))"
  using solve_effect [of E s] by auto

text \<open>With plotting on at the start of a trip, a trip that gets past the backend has
  run the plot of the extracted sources.\<close>

lemma plot_objs_before_backend:
  assumes up: "upto_solve E cfg s0 = (Proceed, s1)" and plots_on: "makeplots s0"
  shows "\<exists>cmd. PlotObjs cmd \<in> set (calls s1)"
proof -
  let ?r = "and_then (and_then (and_then (resolve cfg s0) (download E cfg)) (classify E cfg)) (augment E)"
  have bs: "before_solve E cfg s0 = and_then ?r (plot_objs E cfg)"
    by (simp add: before_solve_def)
  have p1: "fst (before_solve E cfg s0) = Proceed"
    using up and_then_Proceed [of "before_solve E cfg s0" "solve E"] by (simp add: upto_solve_def)
  then have p2: "fst ?r = Proceed"
    using and_then_Proceed [of ?r "plot_objs E cfg"] by (simp add: bs)
  obtain t where t: "?r = (Proceed, t)"
    using p2 by (cases ?r) simp
  have "makeplots (snd ?r) = makeplots s0"
    by (simp add: keeps_and_then [OF keeps_makeplots_augment]
        keeps_and_then [OF keeps_makeplots_classify]
        keeps_and_then [OF keeps_makeplots_download] resolve_makeplots)
  then have mt: "makeplots t" using plots_on t by simp
  have b4: "before_solve E cfg s0 = plot_objs E cfg t"
    by (simp add: bs t)
  then obtain cmd where c: "PlotObjs cmd \<in> set (calls (snd (plot_objs E cfg t)))"
    using plot_objs_called [OF mt] p1 by auto
  obtain s4 where s4: "plot_objs E cfg t = (Proceed, s4)"
    using p1 b4 by (cases "plot_objs E cfg t") simp
  have "solve E s4 = (Proceed, s1)"
    using up by (simp add: upto_solve_def b4 s4)
  then show ?thesis
    using c s4 solve_calls_grow [of s4 E] by auto
qed

lemma project_index_effect:
  "calls (snd (project_index E s))
     = calls s @ [Rd2xy (wcsfn (axy s)) (rdlsfn (axy s)) (indxylsfn s)]
   \<and> axy (snd (project_index E s)) = axy s
   \<and> makeplots (snd (project_index E s)) = makeplots s"
  by (auto simp: project_index_def Let_def emit_def split: prod.splits)

lemma read_wcs_effect:
  "calls (snd (read_wcs E s)) = calls s @ [ReadWcs (wcsfn (axy s))]
   \<and> axy (snd (read_wcs E s)) = axy s
   \<and> makeplots (snd (read_wcs E s)) = makeplots s"
  by (auto simp: read_wcs_def Let_def emit_def)

lemma plot_indx_effect:
  "axy (snd (plot_indx E cfg s)) = axy s
   \<and> makeplots (snd (plot_indx E cfg s)) = makeplots s
   \<and> (makeplots s \<and> fst (plot_indx E cfg s) = Proceed \<longrightarrow>
        (\<exists>cmd. calls (snd (plot_indx E cfg s))
            = calls s @ [ReadMatch (matchfn (axy s)), PlotIndx cmd]))"
  by (auto simp: plot_indx_def Let_def emit_def
      split: prod.splits option.splits match_read.splits if_splits)

lemma plot_ngc_effect:
  "imagefn (axy s) \<noteq> None \<and> makeplots s \<and> fst (plot_ngc E cfg s) = Proceed \<longrightarrow>
     (\<exists>cmd. calls (snd (plot_ngc E cfg s)) = calls s @ [PlotNgc cmd])"
  by (auto simp: plot_ngc_def Let_def emit_def split: prod.splits option.splits if_splits)

text \<open>The calls of the steps after the gate when all of them come through.\<close>

lemma post_solve_sequence:
  assumes ex: "file_exists (disk s) (solvedfn (axy s))"
    and p: "fst (post_solve E cfg s) = Proceed"
  shows "\<exists>mid ev. calls (snd (post_solve E cfg s))
           = calls s @ Rd2xy (wcsfn (axy s)) (rdlsfn (axy s)) (indxylsfn s)
               # ReadWcs (wcsfn (axy s)) # mid @ ev
         \<and> (makeplots s \<longrightarrow> (\<exists>cmd. mid = [ReadMatch (matchfn (axy s)), PlotIndx cmd]))
         \<and> (makeplots s \<and> imagefn (axy s) \<noteq> None \<longrightarrow> (\<exists>cmd. ev = [PlotNgc cmd]))"
proof -
  let ?r1 = "project_index E s"
  let ?r2 = "and_then ?r1 (read_wcs E)"
  let ?r3 = "and_then ?r2 (plot_indx E cfg)"
  have ps: "post_solve E cfg s = and_then ?r3 (plot_ngc E cfg)"
    by (rule post_solve_entered [OF ex])
  have p3: "fst ?r3 = Proceed"
    using p and_then_Proceed [of ?r3 "plot_ngc E cfg"] by (simp add: ps)
  then have p2: "fst ?r2 = Proceed"
    using and_then_Proceed [of ?r2 "plot_indx E cfg"] by simp
  then have p1: "fst ?r1 = Proceed"
    using and_then_Proceed [of ?r1 "read_wcs E"] by simp
  obtain t1 where t1: "?r1 = (Proceed, t1)" using p1 by (cases ?r1) simp
  obtain t2 where t2: "read_wcs E t1 = (Proceed, t2)"
    using p2 t1 by (cases "read_wcs E t1") simp
  obtain t3 where t3: "plot_indx E cfg t2 = (Proceed, t3)"
    using p3 t1 t2 by (cases "plot_indx E cfg t2") simp
  have r4: "post_solve E cfg s = plot_ngc E cfg t3"
    by (simp add: ps t1 t2 t3)
  have f1: "calls t1 = calls s @ [Rd2xy (wcsfn (axy s)) (rdlsfn (axy s)) (indxylsfn s)]"
    "axy t1 = axy s" "makeplots t1 = makeplots s"
    using project_index_effect [of E s] t1 by simp_all
  have f2: "calls t2 = calls t1 @ [ReadWcs (wcsfn (axy t1))]"
    "axy t2 = axy t1" "makeplots t2 = makeplots t1"
    using read_wcs_effect [of E t1] t2 by simp_all
  have f3: "axy t3 = axy t2" "makeplots t3 = makeplots t2"
    "makeplots t2 \<longrightarrow> (\<exists>cmd. calls t3 = calls t2 @ [ReadMatch (matchfn (axy t2)), PlotIndx cmd])"
    using plot_indx_effect [of E cfg t2] t3 by simp_all
  obtain mid where mid: "calls t3 = calls t2 @ mid"
    using extends_and_then [OF adds_plot_indx, of "(Proceed, t2)" E cfg] t3
    by (auto simp: extends_def)
  obtain ev where ev: "calls (snd (plot_ngc E cfg t3)) = calls t3 @ ev"
    using extends_and_then [OF adds_plot_ngc, of "(Proceed, t3)" E cfg]
    by (auto simp: extends_def)
  have m: "makeplots s \<longrightarrow> (\<exists>cmd. mid = [ReadMatch (matchfn (axy s)), PlotIndx cmd])"
    using f3(3) mid f1 f2 by auto
  have e: "makeplots s \<and> imagefn (axy s) \<noteq> None \<longrightarrow> (\<exists>cmd. ev = [PlotNgc cmd])"
    using plot_ngc_effect [of t3 E cfg] p r4 ev f1 f2 f3 by auto
  have "calls (snd (post_solve E cfg s))
           = calls s @ Rd2xy (wcsfn (axy s)) (rdlsfn (axy s)) (indxylsfn s)
               # ReadWcs (wcsfn (axy s)) # mid @ ev"
    using ev mid f1 f2 by (simp add: r4)
  then show ?thesis using m e by blast
qed

text \<open>
  C6 does not hold of the plot of the extracted sources. In the trip for the image
  \<open>sky.png\<close> in which every program succeeds and the backend leaves no solved file, that
  plot has been run (lines 487-541, before the backend) although the solved file does not
  exist at the gate.
\<close>

theorem source_plot_runs_unsolved:
  "fst (upto_solve env0 cfg0 (start_job env0 cfg0 1 1 ''sky.png'' False (st0 (disk_with {}))))
     = Proceed
   \<and> \<not> file_exists
        (disk (snd (upto_solve env0 cfg0 (start_job env0 cfg0 1 1 ''sky.png'' False (st0 (disk_with {}))))))
        ''sky.solved''
   \<and> solvedfn (axy (snd (upto_solve env0 cfg0
        (start_job env0 cfg0 1 1 ''sky.png'' False (st0 (disk_with {})))))) = ''sky.solved''
   \<and> PlotObjs ''plotxy -i sky.axy -I /tmp/tmp.ppm -P -C red -w 2 -N 50 -x 1 -y 1 | plotxy -i sky.axy -I - -w 2 -r 3 -C red -n 50 -N 200 -x 1 -y 1 > sky-objs.png''
       \<in> set (calls (snd (iteration env0 cfg0 1 1 ''sky.png'' False (st0 (disk_with {})))))"
  by (simp add: ex_defs)

text \<open>
  C6, as the code has it, for a trip that starts with the solved-in string in place
  (there is none, or no earlier trip has freed it) and gets past the backend. The plot of
  the extracted sources is not behind the gate: with plotting on it has been run before
  the backend. A call of the steps after the backend (the projection of the index
  stars, the reading of the header, the plot of the index stars, the constellations) is
  made if and only if the solved file of the input exists at that point; the first of
  them is then the projection, and when all of them come through they are made in that
  order, the two plots under their own conditions. When the file does not exist the body
  ends there with nothing more done, the trip gets through \<^verbatim>\<open>nextfile\<close> and the loop goes
  on with the next input; a run that ends with such a trip returns 0. A run of the loop
  either processes every input, or stops at a trip that ends the process.
\<close>

theorem solved_gate:
  assumes ok: "solvedinfn (allaxy cfg) = None \<or> \<not> solvedin_freed s"
    and up: "upto_solve E cfg (start_job E cfg n (k + 1) inp (junk (k + 1)) s) = (Proceed, s1)"
  shows "((\<exists>c\<in>set (calls (snd (body E cfg (start_job E cfg n (k + 1) inp (junk (k + 1)) s)))).
              part_of c = Reporting)
            \<longleftrightarrow> file_exists (disk s1) (solvedfn (axy s1)))
       \<and> (makeplots s \<longrightarrow> (\<exists>cmd. PlotObjs cmd \<in> set (calls s1)))
       \<and> solvedfn (axy s1) = fst (trim_suffix (derive_base E cfg (k + 1) inp)) @ ''.solved''
       \<and> (file_exists (disk s1) (solvedfn (axy s1)) \<longrightarrow>
            (\<exists>ev. calls (snd (body E cfg (start_job E cfg n (k + 1) inp (junk (k + 1)) s)))
                = calls s1 @ Rd2xy (wcsfn (axy s1)) (rdlsfn (axy s1)) (indxylsfn s1) # ev))
       \<and> (file_exists (disk s1) (solvedfn (axy s1))
            \<and> fst (body E cfg (start_job E cfg n (k + 1) inp (junk (k + 1)) s)) = Proceed \<longrightarrow>
            (\<exists>mid ev. calls (snd (body E cfg (start_job E cfg n (k + 1) inp (junk (k + 1)) s)))
                = calls s1 @ Rd2xy (wcsfn (axy s1)) (rdlsfn (axy s1)) (indxylsfn s1)
                    # ReadWcs (wcsfn (axy s1)) # mid @ ev
              \<and> (makeplots s1 \<longrightarrow> (\<exists>cmd. mid = [ReadMatch (matchfn (axy s1)), PlotIndx cmd]))
              \<and> (makeplots s1 \<and> imagefn (axy s1) \<noteq> None \<longrightarrow> (\<exists>cmd. ev = [PlotNgc cmd]))))
       \<and> (\<not> file_exists (disk s1) (solvedfn (axy s1)) \<longrightarrow>
            body E cfg (start_job E cfg n (k + 1) inp (junk (k + 1)) s) = (Proceed, s1)
            \<and> iteration E cfg n (k + 1) inp (junk (k + 1)) s = cleanup s1
            \<and> fst (cleanup s1) = Proceed
            \<and> calls (snd (cleanup s1)) = calls s1
            \<and> run_files E cfg n junk k (inp # rest) s =
                (case run_files E cfg n junk (k + 1) rest (snd (cleanup s1)) of
                   (oc, s'', trs) \<Rightarrow> (oc, s'', calls s1 # trs))
            \<and> ending_of (fst (run_files E cfg n junk k [inp] s)) = Returns 0)
       \<and> ((fst (run_files E cfg n junk k inputs s) = Proceed
              \<and> length (snd (snd (run_files E cfg n junk k inputs s))) = length inputs)
            \<or> fatal (fst (run_files E cfg n junk k inputs s)))"
  (is "?A \<and> ?P \<and> ?B \<and> ?C \<and> ?S \<and> ?D \<and> ?F")
proof -
  let ?s0 = "start_job E cfg n (k + 1) inp (junk (k + 1)) s"
  have nd: "\<not> dangling ?s0" using ok by (auto simp: dangling_start_job)
  have body: "body E cfg ?s0 = post_solve E cfg s1"
    by (simp add: body_def up)
  have facts: "solvedfn (axy s1) = solvedfn (axy ?s0)" "\<forall>c\<in>set (calls s1). part_of c \<noteq> Reporting"
    using upto_solve_facts [OF up] by (simp_all add: start_job_fields)
  have P: ?P
    using plot_objs_before_backend [OF up] by (simp add: start_job_fields)
  have B: ?B using facts(1) by (simp add: start_job_solvedfn)
  have C: ?C
  proof
    assume ex: "file_exists (disk s1) (solvedfn (axy s1))"
    obtain ev where "calls (snd (post_solve E cfg s1)) = calls (snd (project_index E s1)) @ ev"
      using reporting_extends [of "project_index E s1" E cfg]
      by (auto simp: post_solve_entered [OF ex] extends_def)
    then show "\<exists>ev. calls (snd (body E cfg ?s0))
                = calls s1 @ Rd2xy (wcsfn (axy s1)) (rdlsfn (axy s1)) (indxylsfn s1) # ev"
      by (simp add: body project_index_first)
  qed
  have S: ?S
    using post_solve_sequence [of s1 E cfg] by (simp add: body)
  have D: ?D
  proof
    assume nex: "\<not> file_exists (disk s1) (solvedfn (axy s1))"
    have b: "body E cfg ?s0 = (Proceed, s1)"
      by (simp add: body post_solve_silent [OF nex])
    then have nf: "\<not> fatal (fst (body E cfg ?s0))"
      by (simp add: fatal_def)
    have it: "iteration E cfg n (k + 1) inp (junk (k + 1)) s = cleanup s1"
      using iteration_nextfile [OF nd nf] b by simp
    have pr: "fst (cleanup s1) = Proceed" "calls (snd (cleanup s1)) = calls s1"
      using iteration_proceeds(1,4) [OF nd nf] it b by simp_all
    obtain s' where c: "cleanup s1 = (Proceed, s')"
      using pr(1) by (cases "cleanup s1") simp
    show "body E cfg ?s0 = (Proceed, s1)
            \<and> iteration E cfg n (k + 1) inp (junk (k + 1)) s = cleanup s1
            \<and> fst (cleanup s1) = Proceed
            \<and> calls (snd (cleanup s1)) = calls s1
            \<and> run_files E cfg n junk k (inp # rest) s =
                (case run_files E cfg n junk (k + 1) rest (snd (cleanup s1)) of
                   (oc, s'', trs) \<Rightarrow> (oc, s'', calls s1 # trs))
            \<and> ending_of (fst (run_files E cfg n junk k [inp] s)) = Returns 0"
      using b it pr c by (simp add: fatal_def ending_of_def)
  qed
  have A: ?A
  proof (cases "file_exists (disk s1) (solvedfn (axy s1))")
    case True
    with C show ?thesis by (auto simp: part_of_def)
  next
    case False
    with D facts(2) show ?thesis by auto
  qed
  have F: ?F
    using run_files_outcome [of E cfg n junk k inputs s] by auto
  from A P B C S D F show ?thesis by blast
qed

theorem solved_gate_witness:
  "(\<exists>c\<in>set (calls (snd (body env_solves cfg0
        (start_job env_solves cfg0 1 (0 + 1) ''sky.png'' (no_junk (0 + 1)) (st0 (disk_with {})))))).
      part_of c = Reporting)
   \<and> (\<exists>cmd cmd' cmd''. calls (snd (body env_solves cfg0
        (start_job env_solves cfg0 1 (0 + 1) ''sky.png'' (no_junk (0 + 1)) (st0 (disk_with {})))))
      = calls (snd (upto_solve env_solves cfg0
          (start_job env_solves cfg0 1 (0 + 1) ''sky.png'' (no_junk (0 + 1)) (st0 (disk_with {})))))
        @ [Rd2xy ''sky.wcs'' ''sky.rdls'' ''sky-indx.xyls'', ReadWcs ''sky.wcs'',
           ReadMatch ''sky.match'', PlotIndx cmd, PlotNgc cmd'']
      \<and> PlotObjs cmd' \<in> set (calls (snd (upto_solve env_solves cfg0
          (start_job env_solves cfg0 1 (0 + 1) ''sky.png'' (no_junk (0 + 1)) (st0 (disk_with {})))))))
   \<and> body env0 cfg0 (start_job env0 cfg0 1 (0 + 1) ''sky.png'' (no_junk (0 + 1)) (st0 (disk_with {})))
      = (Proceed, snd (upto_solve env0 cfg0
           (start_job env0 cfg0 1 (0 + 1) ''sky.png'' (no_junk (0 + 1)) (st0 (disk_with {})))))
   \<and> ending_of (fst (run_files env0 cfg0 1 no_junk 0 [''sky.png''] (st0 (disk_with {}))))
      = Returns 0"
proof -
  let ?S = "start_job env_solves cfg0 1 (0 + 1) ''sky.png'' (no_junk (0 + 1)) (st0 (disk_with {}))"
  let ?T = "start_job env0 cfg0 1 (0 + 1) ''sky.png'' (no_junk (0 + 1)) (st0 (disk_with {}))"
  let ?s1 = "snd (upto_solve env_solves cfg0 ?S)"
  have ok: "solvedinfn (allaxy cfg0) = None \<or> \<not> solvedin_freed (st0 (disk_with {}))"
    by (simp add: ex_defs)
  have "fst (upto_solve env_solves cfg0 ?S) = Proceed"
    by (simp add: ex_defs)
  then have up1: "upto_solve env_solves cfg0 ?S = (Proceed, ?s1)"
    by (simp add: prod_eq_iff)
  have ex1: "file_exists (disk ?s1) (solvedfn (axy ?s1))"
    by (simp add: ex_defs)
  have pb: "file_exists (disk ?s1) (solvedfn (axy ?s1)) \<and> fst (body env_solves cfg0 ?S) = Proceed"
    by (simp add: ex_defs)
  have plots_on: "makeplots (st0 (disk_with {}))"
    by (simp add: ex_defs)
  have v: "makeplots ?s1" "imagefn (axy ?s1) \<noteq> None" "wcsfn (axy ?s1) = ''sky.wcs''"
    "rdlsfn (axy ?s1) = ''sky.rdls''" "indxylsfn ?s1 = ''sky-indx.xyls''"
    "matchfn (axy ?s1) = ''sky.match''"
    by (simp_all add: ex_defs)
  have "fst (upto_solve env0 cfg0 ?T) = Proceed"
    by (simp add: ex_defs)
  then have up2: "upto_solve env0 cfg0 ?T = (Proceed, snd (upto_solve env0 cfg0 ?T))"
    by (simp add: prod_eq_iff)
  have nex2: "\<not> file_exists (disk (snd (upto_solve env0 cfg0 ?T)))
               (solvedfn (axy (snd (upto_solve env0 cfg0 ?T))))"
    by (simp add: ex_defs)
  note g = solved_gate [where E = env_solves and cfg = cfg0 and n = 1 and k = 0
      and inp = "''sky.png''" and junk = no_junk and s = "st0 (disk_with {})", OF ok up1]
  note a = g [THEN conjunct1, THEN iffD2, OF ex1]
  note p = g [THEN conjunct2, THEN conjunct1, THEN mp, OF plots_on]
  note q = g [THEN conjunct2, THEN conjunct2, THEN conjunct2, THEN conjunct2, THEN conjunct1,
      THEN mp, OF pb]
  note d = solved_gate [where E = env0 and cfg = cfg0 and n = 1 and k = 0 and inp = "''sky.png''"
      and junk = no_junk and s = "st0 (disk_with {})" and rest = "[]",
      OF ok up2, THEN conjunct2, THEN conjunct2, THEN conjunct2, THEN conjunct2, THEN conjunct2,
      THEN conjunct1, THEN mp, OF nex2]
  from q v obtain cmd cmd'' where
    "calls (snd (body env_solves cfg0 ?S))
      = calls ?s1 @ [Rd2xy ''sky.wcs'' ''sky.rdls'' ''sky-indx.xyls'', ReadWcs ''sky.wcs'',
           ReadMatch ''sky.match'', PlotIndx cmd, PlotNgc cmd'']"
    by auto
  with a p d show ?thesis by blast
qed

subsection \<open>The solved-in file\<close>

text \<open>
  C8. With a solved-in file named \<open>foo.solved\<close> and the input \<open>foo.png\<close>, the solved-in name
  equals the solved name of the input. \<^verbatim>\<open>sl_pop\<close> then removes the last name of the list,
  which is the name of the downloaded copy; \<open>foo.solved\<close> stays in the list that is
  scanned, and with --overwrite the scan deletes it.
\<close>

theorem solved_in_pops_download_name:
  "solvedinfn (axy (start_job env0 cfg_solved_in 1 1 ''foo.png'' False (st0 (disk_with {''foo.solved''}))))
     = Some (solvedfn (axy (start_job env0 cfg_solved_in 1 1 ''foo.png'' False (st0 (disk_with {''foo.solved''})))))
   \<and> outfiles (start_job env0 cfg_solved_in 1 1 ''foo.png'' False (st0 (disk_with {''foo.solved''})))
     = [''foo.axy'', ''foo.match'', ''foo.rdls'', ''foo.solved'', ''foo.wcs'',
        ''foo-objs.png'', ''foo-indx.png'', ''foo-ngc.png'', ''foo-indx.xyls'']
   \<and> downloadfn (start_job env0 cfg_solved_in 1 1 ''foo.png'' False (st0 (disk_with {''foo.solved''})))
     = ''foo-downloaded.png''
   \<and> \<not> file_exists (disk (snd (check_outfiles cfg_solved_in
          (start_job env0 cfg_solved_in 1 1 ''foo.png'' False (st0 (disk_with {''foo.solved''}))))))
        ''foo.solved''"
  by (simp add: ex_defs)

subsection \<open>The arguments of the backend\<close>

text \<open>
  C9. In a run of the loop, every backend command is assembled from the argument list
  as it was before the loop, followed by one token: the shell-escaped name of the
  augmented xylist of the input of that trip. The list is cut back to its size before
  the loop at the top of every trip: it starts every trip equal to the list before the
  loop, and the run leaves it at most one token longer.
\<close>

theorem backend_arguments:
  "(\<forall>i<length (snd (snd (main_loop E cfg junk inputs s))).
      \<forall>be. Backend be \<in> set (snd (snd (main_loop E cfg junk inputs s)) ! i)
        \<longrightarrow> be = backendargs s @ [shell_escape E (canonical_list E cfg (1 + int i) (inputs ! i))])
   \<and> take (sl_size (backendargs s)) (backendargs (fst (snd (main_loop E cfg junk inputs s))))
       = backendargs s
   \<and> (take (sl_size (backendargs s)) (backendargs s') = backendargs s
        \<longrightarrow> backendargs (start_job E cfg (sl_size (backendargs s)) k inp j s') = backendargs s)"
proof -
  obtain oc s2 trs where rf: "run_files E cfg (length (backendargs s)) junk 0 inputs s = (oc, s2, trs)"
    by (cases "run_files E cfg (length (backendargs s)) junk 0 inputs s") auto
  have "take (length (backendargs s)) (backendargs s) = backendargs s" by simp
  from run_files_backend [OF this, of E cfg junk 0 inputs] rf
  have "(\<forall>i<length trs. \<forall>be. Backend be \<in> set (trs ! i)
            \<longrightarrow> be = backendargs s @ [shell_escape E (canonical_list E cfg (1 + int i) (inputs ! i))])
       \<and> take (length (backendargs s)) (backendargs s2) = backendargs s"
    by simp
  then show ?thesis
    using rf by (simp add: main_loop_def sl_size_def start_job_fields)
qed


theorem backend_arguments_witness:
  "Backend [''backend'', ''b.axy'']
     \<in> set (snd (snd (main_loop env0 cfg0 no_junk [''a.png'', ''dir/b.fits''] (st0 (disk_with {})))) ! 1)
   \<and> [''backend'', ''b.axy'']
     = backendargs (st0 (disk_with {}))
       @ [shell_escape env0 (canonical_list env0 cfg0 (1 + int 1) ([''a.png'', ''dir/b.fits''] ! 1))]"
proof -
  have len: "1 < length (snd (snd (main_loop env0 cfg0 no_junk [''a.png'', ''dir/b.fits''] (st0 (disk_with {})))))"
    by (simp add: ex_defs)
  have mem: "Backend [''backend'', ''b.axy'']
     \<in> set (snd (snd (main_loop env0 cfg0 no_junk [''a.png'', ''dir/b.fits''] (st0 (disk_with {})))) ! 1)"
    by (simp add: ex_defs)
  from backend_arguments [where E = env0 and cfg = cfg0 and junk = no_junk and inputs = "[''a.png'', ''dir/b.fits'']"
      and s = "st0 (disk_with {})", THEN conjunct1, rule_format, OF len mem] mem
  show ?thesis by blast
qed



end
